theory Spec2Isabelle
  imports Complex_Main "HOL-Library.AList" "HOL-Library.List_Lexorder"
begin

section \<open>Strings and column names\<close>

text \<open>
  A Python \<^verbatim>\<open>str\<close> is a sequence of Unicode code points, so it is modelled as a list of
  natural numbers. ASCII literals of the source are written with \<open>lit\<close>.
\<close>

type_synonym pystr = "nat list"

definition lit :: "string \<Rightarrow> pystr" where
  "lit s = map of_char s"

text \<open>
  \<^verbatim>\<open>str.strip()\<close> without argument removes the characters for which \<^verbatim>\<open>str.isspace\<close> holds:
  U+0009..U+000D, U+001C..U+0020, U+0085, U+00A0, U+1680, U+2000..U+200A, U+2028, U+2029,
  U+202F, U+205F and U+3000.
\<close>

definition isspace :: "nat \<Rightarrow> bool" where
  "isspace c \<longleftrightarrow>
     (9 \<le> c \<and> c \<le> 13) \<or> (28 \<le> c \<and> c \<le> 32) \<or> c = 133 \<or> c = 160 \<or> c = 5760 \<or>
     (8192 \<le> c \<and> c \<le> 8202) \<or> c = 8232 \<or> c = 8233 \<or> c = 8239 \<or> c = 8287 \<or> c = 12288"

definition comma :: nat where
  "comma = 44"

definition lstrip_chars :: "(nat \<Rightarrow> bool) \<Rightarrow> pystr \<Rightarrow> pystr" where
  "lstrip_chars p s = dropWhile p s"

definition rstrip_chars :: "(nat \<Rightarrow> bool) \<Rightarrow> pystr \<Rightarrow> pystr" where
  "rstrip_chars p s = rev (dropWhile p (rev s))"

definition strip :: "pystr \<Rightarrow> pystr" where
  "strip s = rstrip_chars isspace (lstrip_chars isspace s)"

text \<open>\<^verbatim>\<open>s.rstrip(',')\<close>: every trailing character that is in the argument's set is removed.\<close>

definition rstrip_comma :: "pystr \<Rightarrow> pystr" where
  "rstrip_comma s = rstrip_chars (\<lambda>c. c = comma) s"

text \<open>\<^verbatim>\<open>df.columns.str.strip().str.rstrip(',')\<close>, for one column name.\<close>

definition clean_name :: "pystr \<Rightarrow> pystr" where
  "clean_name n = rstrip_comma (strip n)"

text \<open>
  The cleaning as the specification words it: strip leading and trailing whitespace, then strip
  a single trailing comma.
\<close>

definition spec_clean_name :: "pystr \<Rightarrow> pystr" where
  "spec_clean_name n =
     (let s = strip n in if s \<noteq> [] \<and> last s = comma then butlast s else s)"

definition col_From :: pystr where "col_From = lit ''From''"
definition col_To :: pystr where "col_To = lit ''To''"
definition col_Status :: pystr where "col_Status = lit ''Status''"
definition col_Completed :: pystr where "col_Completed = lit ''Completed''"
definition col_Timed_Out :: pystr where "col_Timed_Out = lit ''Timed Out''"
definition col_Timestamp :: pystr where "col_Timestamp = lit ''Timestamp''"
definition col_Hour :: pystr where "col_Hour = lit ''Hour''"
definition col_Date :: pystr where "col_Date = lit ''Date''"
definition col_Score :: pystr where "col_Score = lit ''Translation Score''"
definition col_Direction :: pystr where "col_Direction = lit ''Translation Direction''"

definition str_Unknown :: pystr where "str_Unknown = lit ''Unknown''"
definition str_Yes :: pystr where "str_Yes = lit ''Yes''"
definition str_No :: pystr where "str_No = lit ''No''"

text \<open>The separator \<^verbatim>\<open>' \<rightarrow> '\<close> of the source: a space, U+2192, a space.\<close>

definition arrow :: pystr where
  "arrow = [32, 8594, 32]"

section \<open>Tables\<close>

text \<open>
  A cell of a pandas column. \<open>NaN\<close> is the missing value of float and object columns,
  \<open>NaT\<close> the missing value of datetime columns. Numbers are modelled as reals (the rounding of
  64-bit floats is not modelled). \<open>Ts t\<close> is a timezone-naive timestamp, \<open>t\<close> nanoseconds after
  the epoch as pandas stores it; \<open>DateC d\<close> is a \<^verbatim>\<open>datetime.date\<close>, \<open>d\<close> days after the epoch.
\<close>

datatype cell = NaN | NaT | Str pystr | Num real | Bool bool | Ts int | DateC int

text \<open>
  A DataFrame: the length of its index and its columns in order, each a name with its cells.
\<close>

record frame =
  nrows :: nat
  cols :: "(pystr \<times> cell list) list"

text \<open>
  The exceptions of the source as values. \<open>LibraryError\<close> stands for whatever a parser of
  pandas raises. \<open>Unmodelled\<close> is no exception of Python: it marks the inputs of the two
  aggregations whose pandas semantics this theory leaves out (see \<open>num_view\<close> and
  \<open>group_keys\<close>), so that nothing is proved about them.
\<close>

datatype py_error =
  KeyError | TypeError | AttributeError | ZeroDivisionError | LibraryError | Unmodelled

definition columns :: "frame \<Rightarrow> pystr list" where
  "columns df = map fst (cols df)"

text \<open>\<^verbatim>\<open>df[k]\<close>: the column named \<open>k\<close>, or \<^verbatim>\<open>KeyError\<close>.\<close>

definition get_col :: "pystr \<Rightarrow> frame \<Rightarrow> py_error + cell list" where
  "get_col k df = (case map_of (cols df) k of None \<Rightarrow> Inl KeyError | Some c \<Rightarrow> Inr c)"

text \<open>\<^verbatim>\<open>df[k] = c\<close>: replaces the column named \<open>k\<close> where it stands, or appends a new one.\<close>

definition set_col :: "pystr \<Rightarrow> cell list \<Rightarrow> frame \<Rightarrow> frame" where
  "set_col k c df = df\<lparr>cols := AList.update k c (cols df)\<rparr>"

text \<open>\<^verbatim>\<open>df.columns = names\<close> (the names of the source always have the length of the old ones).\<close>

definition set_columns :: "pystr list \<Rightarrow> frame \<Rightarrow> frame" where
  "set_columns names df = df\<lparr>cols := zip names (map snd (cols df))\<rparr>"

text \<open>\<^verbatim>\<open>df[mask]\<close> with a boolean mask: the rows where the mask is true, in order.\<close>

definition select :: "bool list \<Rightarrow> 'a list \<Rightarrow> 'a list" where
  "select msk xs = map snd (filter fst (zip msk xs))"

definition filter_rows :: "bool list \<Rightarrow> frame \<Rightarrow> frame" where
  "filter_rows msk df =
     \<lparr>nrows = length (select msk (replicate (nrows df) ())),
      cols = map (\<lambda>(n, c). (n, select msk c)) (cols df)\<rparr>"

text \<open>The rows of a table, each as the association of column names with the cells of the row.\<close>

definition row_at :: "frame \<Rightarrow> nat \<Rightarrow> (pystr \<times> cell) list" where
  "row_at df i = map (\<lambda>(n, c). (n, c ! i)) (cols df)"

definition rows_of :: "frame \<Rightarrow> (pystr \<times> cell) list list" where
  "rows_of df = map (row_at df) [0..<nrows df]"

text \<open>Every column of a DataFrame has the length of the index.\<close>

definition rect :: "frame \<Rightarrow> bool" where
  "rect df \<longleftrightarrow> list_all (\<lambda>(n, c). length c = nrows df) (cols df)"

section \<open>The library functions that are taken as parameters\<close>

text \<open>
  The parsers of pandas are not part of the repository. They are parameters:
  \<^item> \<open>to_datetime_conv col\<close> is \<^verbatim>\<open>pd.to_datetime(col, errors='coerce')\<close> on a column that is
    not yet of datetime type: \<open>None\<close> when it raises (as it does on a boolean column),
    otherwise the conversion of each cell, \<open>None\<close> for a cell that becomes \<^verbatim>\<open>NaT\<close>. The
    conversion may depend on the whole column, since pandas infers the format from it.
  \<^item> \<open>to_numeric_conv col\<close> is \<^verbatim>\<open>pd.to_numeric(col, errors='coerce')\<close> on a column that is
    not yet numeric, in the same way.
  \<^item> \<open>str_of c\<close> is \<^verbatim>\<open>str(c)\<close> for a cell that is not a string.
  \<^item> \<open>py_round x n\<close> is \<^verbatim>\<open>round(x, n)\<close>.
\<close>

record lib =
  to_datetime_conv :: "cell list \<Rightarrow> (cell \<Rightarrow> int option) option"
  to_numeric_conv :: "cell list \<Rightarrow> (cell \<Rightarrow> real option) option"
  str_of :: "cell \<Rightarrow> pystr"
  py_round :: "real \<Rightarrow> nat \<Rightarrow> real"

section \<open>Column operations\<close>

definition isna :: "cell \<Rightarrow> bool" where
  "isna c \<longleftrightarrow> c = NaN \<or> c = NaT"

text \<open>\<^verbatim>\<open>Series.fillna(v)\<close>, for one cell.\<close>

definition fillna :: "cell \<Rightarrow> cell \<Rightarrow> cell" where
  "fillna v c = (if isna c then v else c)"

text \<open>\<^verbatim>\<open>Series.map({'Yes': True, 'No': False})\<close>, for one cell: a value that is no key gives NaN.\<close>

definition map_yes_no :: "cell \<Rightarrow> cell" where
  "map_yes_no c = (if c = Str str_Yes then Bool True else if c = Str str_No then Bool False else NaN)"

definition is_datetime :: "cell \<Rightarrow> bool" where
  "is_datetime c \<longleftrightarrow> (case c of Ts t \<Rightarrow> True | NaT \<Rightarrow> True | _ \<Rightarrow> False)"

definition is_float :: "cell \<Rightarrow> bool" where
  "is_float c \<longleftrightarrow> (case c of Num x \<Rightarrow> True | NaN \<Rightarrow> True | _ \<Rightarrow> False)"

definition is_bool :: "cell \<Rightarrow> bool" where
  "is_bool c \<longleftrightarrow> (case c of Bool b \<Rightarrow> True | _ \<Rightarrow> False)"

text \<open>
  \<^verbatim>\<open>pd.to_datetime(col, errors='coerce')\<close>: a datetime column is returned as it is, any other
  column is converted by the library.
\<close>

definition to_datetime :: "lib \<Rightarrow> cell list \<Rightarrow> py_error + cell list" where
  "to_datetime L col =
     (if list_all is_datetime col then Inr col
      else case to_datetime_conv L col of
             None \<Rightarrow> Inl LibraryError
           | Some f \<Rightarrow> Inr (map (\<lambda>c. case f c of None \<Rightarrow> NaT | Some t \<Rightarrow> Ts t) col))"

text \<open>
  \<^verbatim>\<open>pd.to_numeric(col, errors='coerce')\<close>: a column of numeric type (float, or boolean) is
  returned as it is, any other column is converted by the library.
\<close>

definition to_numeric :: "lib \<Rightarrow> cell list \<Rightarrow> py_error + cell list" where
  "to_numeric L col =
     (if list_all is_float col \<or> list_all is_bool col then Inr col
      else case to_numeric_conv L col of
             None \<Rightarrow> Inl LibraryError
           | Some f \<Rightarrow> Inr (map (\<lambda>c. case f c of None \<Rightarrow> NaN | Some x \<Rightarrow> Num x) col))"

definition ns_per_hour :: int where
  "ns_per_hour = 3600000000000"

definition ns_per_day :: int where
  "ns_per_day = 24 * ns_per_hour"

definition hour_of :: "int \<Rightarrow> int" where
  "hour_of t = (t mod ns_per_day) div ns_per_hour"

definition date_of :: "int \<Rightarrow> int" where
  "date_of t = t div ns_per_day"

text \<open>The \<^verbatim>\<open>.dt\<close> accessor exists on datetime columns only.\<close>

definition hour_cell :: "cell \<Rightarrow> cell" where
  "hour_cell c = (case c of Ts t \<Rightarrow> Num (of_int (hour_of t)) | _ \<Rightarrow> NaN)"

definition date_cell :: "cell \<Rightarrow> cell" where
  "date_cell c = (case c of Ts t \<Rightarrow> DateC (date_of t) | _ \<Rightarrow> NaT)"

definition dt_hour :: "cell list \<Rightarrow> py_error + cell list" where
  "dt_hour col = (if list_all is_datetime col then Inr (map hour_cell col) else Inl AttributeError)"

definition dt_date :: "cell list \<Rightarrow> py_error + cell list" where
  "dt_date col = (if list_all is_datetime col then Inr (map date_cell col) else Inl AttributeError)"

text \<open>\<^verbatim>\<open>Series.astype(str)\<close>, for one cell.\<close>

definition astype_str :: "lib \<Rightarrow> cell \<Rightarrow> pystr" where
  "astype_str L c = (case c of Str s \<Rightarrow> s | _ \<Rightarrow> str_of L c)"

section \<open>preprocess\_data\<close>

text \<open>
  The statements of the \<^verbatim>\<open>try\<close> block run in order; the first one that raises ends the block.
\<close>

fun run_steps :: "(frame \<Rightarrow> py_error + frame) list \<Rightarrow> frame \<Rightarrow> py_error + frame" where
  "run_steps [] df = Inr df"
| "run_steps (s # ss) df = (case s df of Inl e \<Rightarrow> Inl e | Inr df' \<Rightarrow> run_steps ss df')"

text \<open>\<^verbatim>\<open>df.columns = df.columns.str.strip().str.rstrip(',')\<close>\<close>

definition cleaned :: "frame \<Rightarrow> frame" where
  "cleaned df = set_columns (map clean_name (columns df)) df"

definition clean_columns :: "frame \<Rightarrow> py_error + frame" where
  "clean_columns df = Inr (cleaned df)"

text \<open>\<^verbatim>\<open>df[k] = df[k].fillna('Unknown')\<close>\<close>

definition fill_cell :: "cell \<Rightarrow> cell" where
  "fill_cell c = fillna (Str str_Unknown) c"

definition fill_unknown :: "pystr \<Rightarrow> frame \<Rightarrow> py_error + frame" where
  "fill_unknown k df =
     (case get_col k df of
        Inl e \<Rightarrow> Inl e
      | Inr c \<Rightarrow> Inr (set_col k (map fill_cell c) df))"

text \<open>
  \<^verbatim>\<open>if k in df.columns: df[k] = df[k].map({'Yes': True, 'No': False}).fillna(False)\<close>
\<close>

definition flag_cell :: "cell \<Rightarrow> cell" where
  "flag_cell c = fillna (Bool False) (map_yes_no c)"

definition convert_flag :: "pystr \<Rightarrow> frame \<Rightarrow> py_error + frame" where
  "convert_flag k df =
     (if k \<in> set (columns df)
      then case get_col k df of
             Inl e \<Rightarrow> Inl e
           | Inr c \<Rightarrow> Inr (set_col k (map flag_cell c) df)
      else Inr df)"

definition assign_timestamp :: "lib \<Rightarrow> frame \<Rightarrow> py_error + frame" where
  "assign_timestamp L df =
     (case get_col col_Timestamp df of
        Inl e \<Rightarrow> Inl e
      | Inr c \<Rightarrow> (case to_datetime L c of
                   Inl e \<Rightarrow> Inl e
                 | Inr ts \<Rightarrow> Inr (set_col col_Timestamp ts df)))"

definition assign_hour :: "frame \<Rightarrow> py_error + frame" where
  "assign_hour df =
     (case get_col col_Timestamp df of
        Inl e \<Rightarrow> Inl e
      | Inr c \<Rightarrow> (case dt_hour c of
                   Inl e \<Rightarrow> Inl e
                 | Inr h \<Rightarrow> Inr (set_col col_Hour h df)))"

definition assign_date :: "frame \<Rightarrow> py_error + frame" where
  "assign_date df =
     (case get_col col_Timestamp df of
        Inl e \<Rightarrow> Inl e
      | Inr c \<Rightarrow> (case dt_date c of
                   Inl e \<Rightarrow> Inl e
                 | Inr d \<Rightarrow> Inr (set_col col_Date d df)))"

text \<open>The block under \<^verbatim>\<open>if 'Timestamp' in df.columns\<close>.\<close>

definition parse_timestamp :: "lib \<Rightarrow> frame \<Rightarrow> py_error + frame" where
  "parse_timestamp L df =
     (if col_Timestamp \<in> set (columns df)
      then run_steps [assign_timestamp L, assign_hour, assign_date] df
      else Inr df)"

text \<open>The block under \<^verbatim>\<open>if 'Translation Score' in df.columns\<close>.\<close>

definition clean_scores :: "lib \<Rightarrow> frame \<Rightarrow> py_error + frame" where
  "clean_scores L df =
     (if col_Score \<in> set (columns df)
      then case get_col col_Score df of
             Inl e \<Rightarrow> Inl e
           | Inr c \<Rightarrow> (case to_numeric L c of
                        Inl e \<Rightarrow> Inl e
                      | Inr v \<Rightarrow> Inr (set_col col_Score v df))
      else Inr df)"

text \<open>
  \<^verbatim>\<open>df['Translation Direction'] = df['From'].astype(str) + ' \<rightarrow> ' + df['To'].astype(str)\<close>
\<close>

definition direction_of :: "lib \<Rightarrow> cell \<Rightarrow> cell \<Rightarrow> cell" where
  "direction_of L a b = Str (astype_str L a @ arrow @ astype_str L b)"

definition create_direction :: "lib \<Rightarrow> frame \<Rightarrow> py_error + frame" where
  "create_direction L df =
     (case get_col col_From df of
        Inl e \<Rightarrow> Inl e
      | Inr f \<Rightarrow> (case get_col col_To df of
                   Inl e \<Rightarrow> Inl e
                 | Inr t \<Rightarrow> Inr (set_col col_Direction (map2 (direction_of L) f t) df)))"

text \<open>The statements after the cleaning of the column names: they refer to fields by name.\<close>

definition field_steps :: "lib \<Rightarrow> (frame \<Rightarrow> py_error + frame) list" where
  "field_steps L =
     [fill_unknown col_From, fill_unknown col_To, fill_unknown col_Status,
      convert_flag col_Completed, convert_flag col_Timed_Out,
      parse_timestamp L,
      clean_scores L,
      create_direction L]"

definition preprocess_steps :: "lib \<Rightarrow> frame \<Rightarrow> py_error + frame" where
  "preprocess_steps L df = run_steps (clean_columns # field_steps L) df"

text \<open>
  \<^verbatim>\<open>preprocess_data\<close>: the \<^verbatim>\<open>except Exception\<close> clause reports the error and returns
  \<^verbatim>\<open>None\<close>. The source updates its argument in place and returns it; the model returns the
  updated table, which is all that the callers use.
\<close>

definition preprocess_data :: "lib \<Rightarrow> frame \<Rightarrow> frame option" where
  "preprocess_data L df = (case preprocess_steps L df of Inl e \<Rightarrow> None | Inr d \<Rightarrow> Some d)"

text \<open>
  \<^verbatim>\<open>load_data_from_file\<close> and \<^verbatim>\<open>load_data_from_upload\<close> have the same body; \<open>read_csv\<close> is
  \<^verbatim>\<open>pd.read_csv\<close> on the path or on the uploaded file, with its exceptions as values. The
  message shown through \<^verbatim>\<open>st.error\<close> and the memoisation of \<^verbatim>\<open>st.cache_data\<close> are left out.
\<close>

definition load_data_from_file :: "('src \<Rightarrow> py_error + frame) \<Rightarrow> lib \<Rightarrow> 'src \<Rightarrow> frame option" where
  "load_data_from_file read_csv L file_path =
     (case read_csv file_path of Inl e \<Rightarrow> None | Inr df \<Rightarrow> preprocess_data L df)"

definition load_data_from_upload :: "('src \<Rightarrow> py_error + frame) \<Rightarrow> lib \<Rightarrow> 'src \<Rightarrow> frame option" where
  "load_data_from_upload read_csv L uploaded_file =
     (case read_csv uploaded_file of Inl e \<Rightarrow> None | Inr df \<Rightarrow> preprocess_data L df)"

section \<open>Aggregation\<close>

text \<open>
  The numeric reading of a cell in \<^verbatim>\<open>Series.sum()\<close> and \<^verbatim>\<open>Series.mean()\<close>: a boolean counts
  as 0 or 1 and a missing value is skipped (\<^verbatim>\<open>skipna\<close>). A string makes
  \<^verbatim>\<open>create_summary_stats\<close> raise \<^verbatim>\<open>TypeError\<close> (in \<^verbatim>\<open>mean\<close>, or when the concatenated
  \<^verbatim>\<open>sum\<close> is divided). Aggregating dates and timestamps is not modelled; \<open>preprocess_data\<close>
  leaves none in the columns that are aggregated.
\<close>

fun num_view :: "cell \<Rightarrow> py_error + real option" where
  "num_view (Num x) = Inr (Some x)"
| "num_view (Bool b) = Inr (Some (if b then 1 else 0))"
| "num_view NaN = Inr None"
| "num_view (Str s) = Inl TypeError"
| "num_view NaT = Inl Unmodelled"
| "num_view (Ts t) = Inl Unmodelled"
| "num_view (DateC d) = Inl Unmodelled"

fun numeric_values :: "cell list \<Rightarrow> py_error + real list" where
  "numeric_values [] = Inr []"
| "numeric_values (c # cs) =
     (case num_view c of
        Inl e \<Rightarrow> Inl e
      | Inr v \<Rightarrow> (case numeric_values cs of
                   Inl e \<Rightarrow> Inl e
                 | Inr vs \<Rightarrow> Inr (case v of None \<Rightarrow> vs | Some x \<Rightarrow> x # vs)))"

definition col_sum :: "cell list \<Rightarrow> py_error + real" where
  "col_sum col = (case numeric_values col of Inl e \<Rightarrow> Inl e | Inr vs \<Rightarrow> Inr (sum_list vs))"

text \<open>\<^verbatim>\<open>Series.mean()\<close>: NaN when no value is left after the missing ones are skipped.\<close>

definition col_mean :: "cell list \<Rightarrow> py_error + cell" where
  "col_mean col =
     (case numeric_values col of
        Inl e \<Rightarrow> Inl e
      | Inr vs \<Rightarrow> Inr (if vs = [] then NaN else Num (sum_list vs / real (length vs))))"

text \<open>\<^verbatim>\<open>df[k].sum() if k in df.columns else 0\<close>\<close>

definition sum_if_present :: "pystr \<Rightarrow> frame \<Rightarrow> py_error + real" where
  "sum_if_present k df =
     (if k \<in> set (columns df)
      then case get_col k df of Inl e \<Rightarrow> Inl e | Inr c \<Rightarrow> col_sum c
      else Inr 0)"

text \<open>\<^verbatim>\<open>df[k].mean() if k in df.columns else 0\<close>\<close>

definition mean_if_present :: "pystr \<Rightarrow> frame \<Rightarrow> py_error + cell" where
  "mean_if_present k df =
     (if k \<in> set (columns df)
      then case get_col k df of Inl e \<Rightarrow> Inl e | Inr c \<Rightarrow> col_mean c
      else Inr (Num 0))"

text \<open>
  Python's \<^verbatim>\<open>a / b\<close>: a zero divisor raises \<^verbatim>\<open>ZeroDivisionError\<close>, it does not give 0. (When
  \<open>a\<close> is a numpy number, as the result of \<^verbatim>\<open>Series.sum()\<close> on a column of numeric type is,
  numpy warns and returns nan or inf instead of raising. The model does not tell the two
  apart: a quotient by zero is no number in either case, and is the exception here.)
\<close>

definition truediv :: "real \<Rightarrow> real \<Rightarrow> py_error + real" where
  "truediv a b = (if b = 0 then Inl ZeroDivisionError else Inr (a / b))"

text \<open>\<^verbatim>\<open>count / total * 100\<close>\<close>

definition percent :: "real \<Rightarrow> nat \<Rightarrow> py_error + real" where
  "percent x n = (case truediv x (real n) of Inl e \<Rightarrow> Inl e | Inr q \<Rightarrow> Inr (q * 100))"

text \<open>\<^verbatim>\<open>round(count / total * 100, 1)\<close>\<close>

definition rounded_percent :: "lib \<Rightarrow> real \<Rightarrow> nat \<Rightarrow> py_error + real" where
  "rounded_percent L x n =
     (case percent x n of Inl e \<Rightarrow> Inl e | Inr p \<Rightarrow> Inr (py_round L p 1))"

record summary =
  total_translations :: nat
  completed_translations :: real
  timed_out_translations :: real
  completion_rate :: real
  timeout_rate :: real
  avg_score :: cell

definition create_summary_stats :: "frame \<Rightarrow> py_error + summary" where
  "create_summary_stats df =
     (let total = nrows df in
      case sum_if_present col_Completed df of
        Inl e \<Rightarrow> Inl e
      | Inr completed \<Rightarrow>
      (case sum_if_present col_Timed_Out df of
        Inl e \<Rightarrow> Inl e
      | Inr timed_out \<Rightarrow>
      (case (if total > 0 then percent completed total else Inr 0) of
        Inl e \<Rightarrow> Inl e
      | Inr c_rate \<Rightarrow>
      (case (if total > 0 then percent timed_out total else Inr 0) of
        Inl e \<Rightarrow> Inl e
      | Inr t_rate \<Rightarrow>
      (case mean_if_present col_Score df of
        Inl e \<Rightarrow> Inl e
      | Inr avg \<Rightarrow>
          Inr \<lparr>total_translations = total,
               completed_translations = completed,
               timed_out_translations = timed_out,
               completion_rate = c_rate,
               timeout_rate = t_rate,
               avg_score = avg\<rparr>)))))"

text \<open>
  \<^verbatim>\<open>df.groupby('Translation Direction')\<close>: the keys are the distinct values of the column in
  sorted order, and rows with a missing key are dropped (\<^verbatim>\<open>dropna=True\<close>). Only string keys
  are modelled, which is what \<open>preprocess_data\<close> writes into the column.
\<close>

definition is_str :: "cell \<Rightarrow> bool" where
  "is_str c \<longleftrightarrow> (case c of Str s \<Rightarrow> True | _ \<Rightarrow> False)"

definition strings_of :: "cell list \<Rightarrow> pystr list" where
  "strings_of col = concat (map (\<lambda>c. case c of Str s \<Rightarrow> [s] | _ \<Rightarrow> []) col)"

definition group_keys :: "cell list \<Rightarrow> py_error + pystr list" where
  "group_keys col =
     (if list_all (\<lambda>c. isna c \<or> is_str c) col
      then Inr (sort (remdups (strings_of col)))
      else Inl Unmodelled)"

definition group_of :: "frame \<Rightarrow> cell list \<Rightarrow> pystr \<Rightarrow> frame" where
  "group_of df col k = filter_rows (map (\<lambda>c. c = Str k) col) df"

record direction_stat =
  Direction :: pystr
  Total :: nat
  Completed :: real
  Timed_Out :: real
  Completion_Rate :: real
  Timeout_Rate :: real
  Avg_Score :: real

text \<open>The body of the loop over the groups.\<close>

definition direction_entry :: "lib \<Rightarrow> pystr \<Rightarrow> frame \<Rightarrow> py_error + direction_stat" where
  "direction_entry L direction grp =
     (let total = nrows grp in
      case sum_if_present col_Completed grp of
        Inl e \<Rightarrow> Inl e
      | Inr completed \<Rightarrow>
      (case sum_if_present col_Timed_Out grp of
        Inl e \<Rightarrow> Inl e
      | Inr timed_out \<Rightarrow>
      (case mean_if_present col_Score grp of
        Inl e \<Rightarrow> Inl e
      | Inr avg \<Rightarrow>
      (case (if total > 0 then rounded_percent L completed total else Inr 0) of
        Inl e \<Rightarrow> Inl e
      | Inr c_rate \<Rightarrow>
      (case (if total > 0 then rounded_percent L timed_out total else Inr 0) of
        Inl e \<Rightarrow> Inl e
      | Inr t_rate \<Rightarrow>
          Inr \<lparr>Direction = direction,
               Total = total,
               Completed = completed,
               Timed_Out = timed_out,
               Completion_Rate = c_rate,
               Timeout_Rate = t_rate,
               Avg_Score = (case avg of Num x \<Rightarrow> py_round L x 2 | _ \<Rightarrow> 0)\<rparr>)))))"

fun collect :: "(py_error + 'a) list \<Rightarrow> py_error + 'a list" where
  "collect [] = Inr []"
| "collect (r # rs) =
     (case r of
        Inl e \<Rightarrow> Inl e
      | Inr x \<Rightarrow> (case collect rs of Inl e \<Rightarrow> Inl e | Inr xs \<Rightarrow> Inr (x # xs)))"

definition create_direction_analysis :: "lib \<Rightarrow> frame \<Rightarrow> py_error + direction_stat list" where
  "create_direction_analysis L df =
     (case get_col col_Direction df of
        Inl e \<Rightarrow> Inl e
      | Inr col \<Rightarrow> (case group_keys col of
                     Inl e \<Rightarrow> Inl e
                   | Inr ks \<Rightarrow> collect (map (\<lambda>k. direction_entry L k (group_of df col k)) ks)))"

section \<open>The date filter of main\<close>

text \<open>
  Comparing a column of \<^verbatim>\<open>datetime.date\<close> objects with a date: a missing entry compares false.
\<close>

definition date_ge :: "cell \<Rightarrow> int \<Rightarrow> bool" where
  "date_ge c d = (case c of DateC x \<Rightarrow> d \<le> x | _ \<Rightarrow> False)"

definition date_le :: "cell \<Rightarrow> int \<Rightarrow> bool" where
  "date_le c d = (case c of DateC x \<Rightarrow> x \<le> d | _ \<Rightarrow> False)"

definition date_eq :: "cell \<Rightarrow> int \<Rightarrow> bool" where
  "date_eq c d = (case c of DateC x \<Rightarrow> x = d | _ \<Rightarrow> False)"

text \<open>
  The date filter of \<^verbatim>\<open>main\<close>; \<open>date_range\<close> is what the date input widget returns, a tuple
  of dates. The filter is active when the table has a Timestamp column that is not missing
  throughout. On a Timestamp column that is no datetime column the source raises before the
  widget is shown (at \<^verbatim>\<open>.min().date()\<close>); the model raises there too, whatever the widget
  returns.
\<close>

definition date_filter :: "frame \<Rightarrow> int list \<Rightarrow> py_error + frame" where
  "date_filter df date_range =
     (if col_Timestamp \<in> set (columns df)
      then case get_col col_Timestamp df of
             Inl e \<Rightarrow> Inl e
           | Inr ts \<Rightarrow>
               if \<not> list_all isna ts
               then case dt_date ts of
                      Inl e \<Rightarrow> Inl e
                    | Inr dates \<Rightarrow>
                        (case date_range of
                           [start_date, end_date] \<Rightarrow>
                             Inr (filter_rows
                                    (map (\<lambda>d. date_ge d start_date \<and> date_le d end_date) dates) df)
                         | [selected_date] \<Rightarrow>
                             Inr (filter_rows (map (\<lambda>d. date_eq d selected_date) dates) df)
                         | _ \<Rightarrow> Inr df)
               else Inr df
      else Inr df)"

section \<open>Well-formed tables\<close>

text \<open>
  A DataFrame is rectangular. pandas gives a table in which a column name occurs twice a
  meaning of its own (\<^verbatim>\<open>df[k]\<close> is then a table, not a column), which is not modelled: the
  theorems below are about the tables whose cleaned column names are pairwise distinct.
\<close>

definition well_formed :: "frame \<Rightarrow> bool" where
  "well_formed df \<longleftrightarrow> rect df \<and> distinct (map clean_name (columns df))"

text \<open>
  What \<open>preprocess_data\<close> establishes and the filters of \<^verbatim>\<open>main\<close> keep, and what the aggregation
  relies on: the flags are booleans, the scores are numbers or missing, and every row has a
  direction, which is a string.
\<close>

definition clean_table :: "frame \<Rightarrow> bool" where
  "clean_table df \<longleftrightarrow>
     rect df \<and>
     (\<forall>c. get_col col_Completed df = Inr c \<longrightarrow> list_all is_bool c) \<and>
     (\<forall>c. get_col col_Timed_Out df = Inr c \<longrightarrow> list_all is_bool c) \<and>
     (\<forall>c. get_col col_Score df = Inr c \<longrightarrow> list_all is_float c \<or> list_all is_bool c) \<and>
     (\<exists>c. get_col col_Direction df = Inr c \<and> list_all is_str c)"

definition shaped :: "nat \<Rightarrow> frame \<Rightarrow> bool" where
  "shaped n d \<longleftrightarrow> rect d \<and> nrows d = n \<and> distinct (columns d)"

section \<open>Sample data\<close>

text \<open>
  A sample library for the concrete examples below. It converts the cells that occur in them
  as pandas does: \<^verbatim>\<open>'2024-08-19 10:30:00'\<close> and \<^verbatim>\<open>'2024-08-21 23:05:00'\<close> are timestamps,
  \<^verbatim>\<open>'4.5'\<close> is a number, and every other string of the examples (\<^verbatim>\<open>'abc'\<close>, \<^verbatim>\<open>'later'\<close>) is
  neither; \<^verbatim>\<open>to_datetime\<close> raises on a column of booleans. The examples round no tie.
\<close>

definition demo_lib :: lib where
  "demo_lib =
     \<lparr>to_datetime_conv = (\<lambda>col.
          if list_all is_bool col then None
          else Some (\<lambda>c.
            if c = Str (lit ''2024-08-19 10:30:00'') then Some 1724063400000000000
            else if c = Str (lit ''2024-08-21 23:05:00'') then Some 1724281500000000000
            else None)),
      to_numeric_conv = (\<lambda>col. Some (\<lambda>c. if c = Str (lit ''4.5'') then Some 4.5 else None)),
      str_of = (\<lambda>c. lit ''nan''),
      py_round = (\<lambda>x n. of_int (round (x * 10 ^ n)) / 10 ^ n)\<rparr>"

text \<open>
  A table as \<^verbatim>\<open>read_csv\<close> returns it, with noise in two column names. The third row has no
  From, no flags and no score; the second has no Status and a timestamp and a score that do
  not parse.
\<close>

definition hdr_From :: pystr where "hdr_From = lit '' From''"
definition hdr_Score :: pystr where "hdr_Score = lit ''Translation Score,, ''"

definition sample_raw :: frame where
  "sample_raw =
     \<lparr>nrows = 3,
      cols =
        [(hdr_From, [Str (lit ''EN''), Str (lit ''EN''), NaN]),
         (col_To, [Str (lit ''FR''), Str (lit ''FR''), Str (lit ''DE'')]),
         (col_Status, [Str (lit ''ok''), NaN, Str (lit ''ok'')]),
         (col_Completed, [Str str_Yes, Str str_No, NaN]),
         (col_Timed_Out, [Str str_No, Str str_Yes, NaN]),
         (col_Timestamp,
            [Str (lit ''2024-08-19 10:30:00''), Str (lit ''later''), Str (lit ''2024-08-21 23:05:00'')]),
         (hdr_Score, [Str (lit ''4.5''), Str (lit ''abc''), NaN])]\<rparr>"

text \<open>
  Three small tables: one with the required columns only (and what \<open>preprocess_data\<close> makes of
  it), one without a To column, one whose Timestamp column \<^verbatim>\<open>read_csv\<close> has read as booleans.
\<close>

definition sample_minimal :: frame where
  "sample_minimal =
     \<lparr>nrows = 1, cols = [(col_From, [Str (lit ''EN'')]), (col_To, [NaN]), (col_Status, [NaN])]\<rparr>"

definition sample_minimal_clean :: frame where
  "sample_minimal_clean =
     \<lparr>nrows = 1,
      cols = [(col_From, [Str (lit ''EN'')]), (col_To, [Str str_Unknown]),
              (col_Status, [Str str_Unknown]),
              (col_Direction, [Str (lit ''EN'' @ arrow @ str_Unknown)])]\<rparr>"

definition sample_no_to :: frame where
  "sample_no_to =
     \<lparr>nrows = 1, cols = [(col_From, [Str (lit ''EN'')]), (col_Status, [Str (lit ''ok'')])]\<rparr>"

definition sample_bool_ts :: frame where
  "sample_bool_ts =
     \<lparr>nrows = 1,
      cols = [(col_From, [Str (lit ''EN'')]), (col_To, [Str (lit ''FR'')]),
              (col_Status, [Str (lit ''ok'')]), (col_Timestamp, [Bool True])]\<rparr>"

text \<open>A sample \<^verbatim>\<open>read_csv\<close>: two files that parse, and no other file.\<close>

definition demo_read_csv :: "string \<Rightarrow> py_error + frame" where
  "demo_read_csv path =
     (if path = ''results.csv'' then Inr sample_raw
      else if path = ''no_to.csv'' then Inr sample_no_to
      else Inl LibraryError)"

text \<open>What \<open>preprocess_data\<close> makes of the sample table.\<close>

definition sample_clean :: frame where
  "sample_clean =
     \<lparr>nrows = 3,
      cols =
        [(col_From, [Str (lit ''EN''), Str (lit ''EN''), Str str_Unknown]),
         (col_To, [Str (lit ''FR''), Str (lit ''FR''), Str (lit ''DE'')]),
         (col_Status, [Str (lit ''ok''), Str str_Unknown, Str (lit ''ok'')]),
         (col_Completed, [Bool True, Bool False, Bool False]),
         (col_Timed_Out, [Bool False, Bool True, Bool False]),
         (col_Timestamp, [Ts 1724063400000000000, NaT, Ts 1724281500000000000]),
         (col_Score, [Num 4.5, NaN, NaN]),
         (col_Hour, [Num 10, NaN, Num 23]),
         (col_Date, [DateC 19954, NaT, DateC 19956]),
         (col_Direction,
            [Str (lit ''EN'' @ arrow @ lit ''FR''), Str (lit ''EN'' @ arrow @ lit ''FR''),
             Str (str_Unknown @ arrow @ lit ''DE'')])]\<rparr>"

text \<open>What a second \<open>preprocess_data\<close> makes of it.\<close>

definition sample_twice :: frame where
  "sample_twice =
     \<lparr>nrows = 3,
      cols =
        [(col_From, [Str (lit ''EN''), Str (lit ''EN''), Str str_Unknown]),
         (col_To, [Str (lit ''FR''), Str (lit ''FR''), Str (lit ''DE'')]),
         (col_Status, [Str (lit ''ok''), Str str_Unknown, Str (lit ''ok'')]),
         (col_Completed, [Bool False, Bool False, Bool False]),
         (col_Timed_Out, [Bool False, Bool False, Bool False]),
         (col_Timestamp, [Ts 1724063400000000000, NaT, Ts 1724281500000000000]),
         (col_Score, [Num 4.5, NaN, NaN]),
         (col_Hour, [Num 10, NaN, Num 23]),
         (col_Date, [DateC 19954, NaT, DateC 19956]),
         (col_Direction,
            [Str (lit ''EN'' @ arrow @ lit ''FR''), Str (lit ''EN'' @ arrow @ lit ''FR''),
             Str (str_Unknown @ arrow @ lit ''DE'')])]\<rparr>"

text \<open>A table without a \<^verbatim>\<open>'Yes'\<close>, and what \<open>preprocess_data\<close> makes of it.\<close>

definition sample_all_no :: frame where
  "sample_all_no =
     \<lparr>nrows = 2,
      cols = [(col_From, [Str (lit ''EN''), NaN]), (col_To, [Str (lit ''FR''), Str (lit ''FR'')]),
              (col_Status, [Str (lit ''ok''), Str (lit ''ok'')]),
              (col_Completed, [Str str_No, NaN])]\<rparr>"

definition sample_all_no_clean :: frame where
  "sample_all_no_clean =
     \<lparr>nrows = 2,
      cols = [(col_From, [Str (lit ''EN''), Str str_Unknown]),
              (col_To, [Str (lit ''FR''), Str (lit ''FR'')]),
              (col_Status, [Str (lit ''ok''), Str (lit ''ok'')]),
              (col_Completed, [Bool False, Bool False]),
              (col_Direction,
                 [Str (lit ''EN'' @ arrow @ lit ''FR''), Str (str_Unknown @ arrow @ lit ''FR'')])]\<rparr>"

text \<open>
  A table whose only score does not parse (the file \<^verbatim>\<open>From,To,Status,Translation Score\<close> with
  the one row \<^verbatim>\<open>EN,FR,ok,abc\<close>), and what \<open>preprocess_data\<close> makes of it.
\<close>

definition sample_no_score :: frame where
  "sample_no_score =
     \<lparr>nrows = 1,
      cols = [(col_From, [Str (lit ''EN'')]), (col_To, [Str (lit ''FR'')]),
              (col_Status, [Str (lit ''ok'')]), (col_Score, [Str (lit ''abc'')])]\<rparr>"

definition sample_no_score_clean :: frame where
  "sample_no_score_clean =
     \<lparr>nrows = 1,
      cols = [(col_From, [Str (lit ''EN'')]), (col_To, [Str (lit ''FR'')]),
              (col_Status, [Str (lit ''ok'')]), (col_Score, [NaN]),
              (col_Direction, [Str (lit ''EN'' @ arrow @ lit ''FR'')])]\<rparr>"

section \<open>Basic facts\<close>

lemma names_distinct:
  "distinct [col_From, col_To, col_Status, col_Completed, col_Timed_Out, col_Timestamp,
     col_Hour, col_Date, col_Score, col_Direction]"
  by (simp add: col_From_def col_To_def col_Status_def col_Completed_def col_Timed_Out_def
      col_Timestamp_def col_Hour_def col_Date_def col_Score_def col_Direction_def lit_def)

lemma names_neq [simp]:
  "col_From \<noteq> col_To" "col_From \<noteq> col_Status" "col_From \<noteq> col_Completed"
  "col_From \<noteq> col_Timed_Out" "col_From \<noteq> col_Timestamp" "col_From \<noteq> col_Hour"
  "col_From \<noteq> col_Date" "col_From \<noteq> col_Score" "col_From \<noteq> col_Direction"
  "col_To \<noteq> col_Status" "col_To \<noteq> col_Completed" "col_To \<noteq> col_Timed_Out"
  "col_To \<noteq> col_Timestamp" "col_To \<noteq> col_Hour" "col_To \<noteq> col_Date"
  "col_To \<noteq> col_Score" "col_To \<noteq> col_Direction"
  "col_Status \<noteq> col_Completed" "col_Status \<noteq> col_Timed_Out" "col_Status \<noteq> col_Timestamp"
  "col_Status \<noteq> col_Hour" "col_Status \<noteq> col_Date" "col_Status \<noteq> col_Score"
  "col_Status \<noteq> col_Direction"
  "col_Completed \<noteq> col_Timed_Out" "col_Completed \<noteq> col_Timestamp" "col_Completed \<noteq> col_Hour"
  "col_Completed \<noteq> col_Date" "col_Completed \<noteq> col_Score" "col_Completed \<noteq> col_Direction"
  "col_Timed_Out \<noteq> col_Timestamp" "col_Timed_Out \<noteq> col_Hour" "col_Timed_Out \<noteq> col_Date"
  "col_Timed_Out \<noteq> col_Score" "col_Timed_Out \<noteq> col_Direction"
  "col_Timestamp \<noteq> col_Hour" "col_Timestamp \<noteq> col_Date" "col_Timestamp \<noteq> col_Score"
  "col_Timestamp \<noteq> col_Direction"
  "col_Hour \<noteq> col_Date" "col_Hour \<noteq> col_Score" "col_Hour \<noteq> col_Direction"
  "col_Date \<noteq> col_Score" "col_Date \<noteq> col_Direction"
  "col_Score \<noteq> col_Direction"
  using names_distinct by simp_all

lemmas names_neq_sym [simp] = names_neq [symmetric]

lemmas clean_defs =
  clean_name_def rstrip_comma_def strip_def rstrip_chars_def lstrip_chars_def isspace_def comma_def

lemma clean_name_fixed [simp]:
  "clean_name col_From = col_From" "clean_name col_To = col_To"
  "clean_name col_Status = col_Status" "clean_name col_Completed = col_Completed"
  "clean_name col_Timed_Out = col_Timed_Out" "clean_name col_Timestamp = col_Timestamp"
  "clean_name col_Hour = col_Hour" "clean_name col_Date = col_Date"
  "clean_name col_Score = col_Score" "clean_name col_Direction = col_Direction"
  by (simp_all add: clean_defs col_From_def col_To_def col_Status_def col_Completed_def
      col_Timed_Out_def col_Timestamp_def col_Hour_def col_Date_def col_Score_def
      col_Direction_def lit_def)

subsection \<open>Stripping\<close>

lemma rstrip_chars_decomp: "s = rstrip_chars p s @ rev (takeWhile p (rev s))"
proof -
  have "rev (takeWhile p (rev s) @ dropWhile p (rev s)) = s" by simp
  then show ?thesis unfolding rstrip_chars_def rev_append by simp
qed

lemma rstrip_chars_last: "rstrip_chars p s \<noteq> [] \<Longrightarrow> \<not> p (last (rstrip_chars p s))"
  by (simp add: rstrip_chars_def last_rev hd_dropWhile)

lemma rstrip_chars_suffix_all: "list_all p (rev (takeWhile p (rev s)))"
  by (simp add: list_all_iff) (meson set_takeWhileD)

lemma lstrip_chars_decomp: "s = takeWhile p s @ lstrip_chars p s"
  by (simp add: lstrip_chars_def)

lemma lstrip_chars_hd: "lstrip_chars p s \<noteq> [] \<Longrightarrow> \<not> p (hd (lstrip_chars p s))"
  by (simp add: lstrip_chars_def hd_dropWhile)

lemma rstrip_chars_hd: "rstrip_chars p s \<noteq> [] \<Longrightarrow> hd (rstrip_chars p s) = hd s"
  by (metis rstrip_chars_decomp hd_append2)

lemma strip_decomp:
  "\<exists>a b. n = a @ strip n @ b \<and> list_all isspace a \<and> list_all isspace b"
proof -
  let ?l = "lstrip_chars isspace n"
  have 1: "n = takeWhile isspace n @ ?l" by (rule lstrip_chars_decomp)
  have 2: "?l = strip n @ rev (takeWhile isspace (rev ?l))"
    unfolding strip_def by (rule rstrip_chars_decomp)
  have 3: "list_all isspace (takeWhile isspace n)"
    by (simp add: list_all_iff) (meson set_takeWhileD)
  have "n = takeWhile isspace n @ strip n @ rev (takeWhile isspace (rev ?l))"
    using 1 2 by simp
  with 3 rstrip_chars_suffix_all [of isspace ?l] show ?thesis by blast
qed

lemma strip_ends:
  assumes "strip n \<noteq> []"
  shows "\<not> isspace (hd (strip n))" and "\<not> isspace (last (strip n))"
proof -
  from assms have ne: "lstrip_chars isspace n \<noteq> []"
    by (auto simp: strip_def rstrip_chars_def)
  have "hd (strip n) = hd (lstrip_chars isspace n)"
    using assms unfolding strip_def by (rule rstrip_chars_hd)
  with lstrip_chars_hd [OF ne] show "\<not> isspace (hd (strip n))" by simp
  show "\<not> isspace (last (strip n))"
    using assms unfolding strip_def by (rule rstrip_chars_last)
qed

lemma clean_name_decomp: "\<exists>k. strip n = clean_name n @ replicate k comma"
proof -
  let ?p = "\<lambda>c. c = comma"
  have "strip n = clean_name n @ rev (takeWhile ?p (rev (strip n)))"
    unfolding clean_name_def rstrip_comma_def by (rule rstrip_chars_decomp)
  moreover have "rev (takeWhile ?p (rev (strip n))) =
      replicate (length (takeWhile ?p (rev (strip n)))) comma"
    by (rule replicate_eqI) (auto dest: set_takeWhileD)
  ultimately show ?thesis by metis
qed

lemma clean_name_last: "clean_name n \<noteq> [] \<Longrightarrow> last (clean_name n) \<noteq> comma"
  unfolding clean_name_def rstrip_comma_def by (rule rstrip_chars_last)

lemma zip_rename: "zip (map (f \<circ> fst) xs) (map snd xs) = map (\<lambda>(n, c). (f n, c)) xs"
  by (induction xs) auto

lemma cleaned_cols: "cleaned df = df\<lparr>cols := map (\<lambda>(n, c). (clean_name n, c)) (cols df)\<rparr>"
  by (simp add: cleaned_def set_columns_def columns_def zip_rename)

subsection \<open>Columns\<close>

lemma get_col_set_col [simp]:
  "get_col k (set_col k' c df) = (if k = k' then Inr c else get_col k df)"
  by (simp add: get_col_def set_col_def update_conv')

lemma nrows_set_col [simp]: "nrows (set_col k c df) = nrows df"
  by (simp add: set_col_def)

lemma columns_set_col:
  "columns (set_col k c df) = (if k \<in> set (columns df) then columns df else columns df @ [k])"
  by (simp add: columns_def set_col_def update_keys)

lemma set_columns_set_col [simp]: "set (columns (set_col k c df)) = insert k (set (columns df))"
  by (auto simp: columns_set_col)

lemma get_col_Inl_iff: "get_col k df = Inl e \<longleftrightarrow> k \<notin> set (columns df) \<and> e = KeyError"
  by (cases "map_of (cols df) k")
    (auto simp: get_col_def columns_def map_of_eq_None_iff [symmetric])

lemma get_col_Inr_mem: "get_col k df = Inr c \<Longrightarrow> k \<in> set (columns df)"
  by (auto simp: get_col_def columns_def split: option.splits dest: map_of_SomeD intro: rev_image_eqI)

lemma mem_get_col: "k \<in> set (columns df) \<Longrightarrow> \<exists>c. get_col k df = Inr c"
  by (cases "get_col k df") (auto simp: get_col_Inl_iff)

lemma not_mem_get_col: "k \<notin> set (columns df) \<Longrightarrow> get_col k df = Inl KeyError"
  by (cases "get_col k df") (auto simp: get_col_Inl_iff dest: get_col_Inr_mem)

lemma set_col_same: "get_col k df = Inr c \<Longrightarrow> set_col k c df = df"
  by (auto simp: get_col_def set_col_def update_triv split: option.splits)

lemma rect_get_col: "rect df \<Longrightarrow> get_col k df = Inr c \<Longrightarrow> length c = nrows df"
  by (auto simp: rect_def get_col_def list_all_iff split: option.splits dest!: map_of_SomeD)

lemma rect_update:
  "list_all (\<lambda>(n, c). length c = m) al \<Longrightarrow> length c = m \<Longrightarrow>
   list_all (\<lambda>(n, c). length c = m) (AList.update k c al)"
  by (induction al) auto

lemma rect_set_col: "rect df \<Longrightarrow> length c = nrows df \<Longrightarrow> rect (set_col k c df)"
  by (simp add: rect_def set_col_def rect_update)

lemma distinct_set_col: "distinct (columns df) \<Longrightarrow> distinct (columns (set_col k c df))"
  by (simp add: columns_def set_col_def distinct_update)

subsection \<open>Sequences of statements\<close>

lemma run_steps_append:
  "run_steps (ss @ ts) df = (case run_steps ss df of Inl e \<Rightarrow> Inl e | Inr d \<Rightarrow> run_steps ts d)"
  by (induction ss arbitrary: df) (auto split: sum.splits)

lemma run_steps_Cons_Inr:
  "run_steps (s # ss) df = Inr d' \<longleftrightarrow> (\<exists>d. s df = Inr d \<and> run_steps ss d = Inr d')"
  by (auto split: sum.splits)

subsection \<open>The statements of preprocess\_data, one by one\<close>

lemma fill_unknown_get:
  assumes "fill_unknown k d = Inr d'"
  shows "get_col k' d' =
    (if k' = k then map_sum id (map fill_cell) (get_col k d) else get_col k' d)"
  using assms by (auto simp: fill_unknown_def split: sum.splits)

lemma fill_unknown_Inl: "fill_unknown k d = Inl e \<longleftrightarrow> k \<notin> set (columns d) \<and> e = KeyError"
  by (auto simp: fill_unknown_def get_col_Inl_iff split: sum.splits dest: get_col_Inr_mem)

lemma convert_flag_total: "\<exists>d'. convert_flag k d = Inr d'"
  by (auto simp: convert_flag_def split: sum.splits dest: mem_get_col)

lemma convert_flag_get:
  assumes "convert_flag k d = Inr d'"
  shows "get_col k' d' =
    (if k' = k then map_sum id (map flag_cell) (get_col k d)
     else get_col k' d)"
  using assms by (auto simp: convert_flag_def not_mem_get_col split: sum.splits if_splits)

lemma to_datetime_is_datetime: "to_datetime L c = Inr ts \<Longrightarrow> list_all is_datetime ts"
  by (auto simp: to_datetime_def is_datetime_def list_all_iff split: if_splits option.splits)

lemma to_datetime_length: "to_datetime L c = Inr ts \<Longrightarrow> length ts = length c"
  by (auto simp: to_datetime_def split: if_splits option.splits)

lemma to_numeric_numeric:
  "to_numeric L c = Inr v \<Longrightarrow> list_all is_float v \<or> list_all is_bool v"
  by (auto simp: to_numeric_def is_float_def list_all_iff split: if_splits option.splits)

lemma to_numeric_length: "to_numeric L c = Inr v \<Longrightarrow> length v = length c"
  by (auto simp: to_numeric_def split: if_splits option.splits)

lemma dt_hour_datetime [simp]: "list_all is_datetime ts \<Longrightarrow> dt_hour ts = Inr (map hour_cell ts)"
  by (simp add: dt_hour_def)

lemma dt_date_datetime [simp]: "list_all is_datetime ts \<Longrightarrow> dt_date ts = Inr (map date_cell ts)"
  by (simp add: dt_date_def)

lemma parse_timestamp_get:
  assumes "parse_timestamp L d = Inr d'"
  shows "case get_col col_Timestamp d of
           Inl e \<Rightarrow> d' = d
         | Inr c \<Rightarrow> (\<exists>ts. to_datetime L c = Inr ts \<and> list_all is_datetime ts \<and>
               d' = set_col col_Date (map date_cell ts)
                      (set_col col_Hour (map hour_cell ts) (set_col col_Timestamp ts d)))"
proof (cases "get_col col_Timestamp d")
  case (Inl e)
  then have "col_Timestamp \<notin> set (columns d)" by (simp add: get_col_Inl_iff)
  with assms Inl show ?thesis by (simp add: parse_timestamp_def)
next
  case (Inr c)
  then have mem: "col_Timestamp \<in> set (columns d)" by (rule get_col_Inr_mem)
  with assms Inr obtain ts where ts: "to_datetime L c = Inr ts"
    by (auto simp: parse_timestamp_def assign_timestamp_def split: sum.splits)
  have dt: "list_all is_datetime ts" using ts by (rule to_datetime_is_datetime)
  from assms mem Inr ts dt
  have "d' = set_col col_Date (map date_cell ts)
      (set_col col_Hour (map hour_cell ts) (set_col col_Timestamp ts d))"
    by (simp add: parse_timestamp_def assign_timestamp_def assign_hour_def assign_date_def)
  with Inr ts dt show ?thesis by simp
qed

lemma clean_scores_get:
  assumes "clean_scores L d = Inr d'"
  shows "case get_col col_Score d of
           Inl e \<Rightarrow> d' = d
         | Inr c \<Rightarrow> (\<exists>v. to_numeric L c = Inr v \<and> d' = set_col col_Score v d)"
  using assms
  by (auto simp: clean_scores_def get_col_Inl_iff split: sum.splits if_splits dest: get_col_Inr_mem)

lemma create_direction_get:
  assumes "create_direction L d = Inr d'"
  shows "\<exists>f t. get_col col_From d = Inr f \<and> get_col col_To d = Inr t \<and>
           d' = set_col col_Direction (map2 (direction_of L) f t) d"
  using assms by (auto simp: create_direction_def split: sum.splits)


lemma flag_cell_eq: "flag_cell c = Bool (c = Str str_Yes)"
  by (simp add: flag_cell_def map_yes_no_def fillna_def isna_def str_Yes_def str_No_def lit_def)

lemma fill_cell_not_na [simp]: "\<not> isna (fill_cell c)"
  by (simp add: fill_cell_def fillna_def isna_def)

lemma fill_cell_id: "\<not> isna c \<Longrightarrow> fill_cell c = c"
  by (simp add: fill_cell_def fillna_def)

text \<open>What each statement leaves alone.\<close>

lemma fill_unknown_other: "fill_unknown k d = Inr d' \<Longrightarrow> k' \<noteq> k \<Longrightarrow> get_col k' d' = get_col k' d"
  by (simp add: fill_unknown_get)

lemma convert_flag_other: "convert_flag k d = Inr d' \<Longrightarrow> k' \<noteq> k \<Longrightarrow> get_col k' d' = get_col k' d"
  by (simp add: convert_flag_get)

lemma parse_timestamp_other:
  "parse_timestamp L d = Inr d' \<Longrightarrow> k \<noteq> col_Timestamp \<Longrightarrow> k \<noteq> col_Hour \<Longrightarrow> k \<noteq> col_Date \<Longrightarrow>
   get_col k d' = get_col k d"
  by (drule parse_timestamp_get) (auto split: sum.splits)

lemma clean_scores_other: "clean_scores L d = Inr d' \<Longrightarrow> k \<noteq> col_Score \<Longrightarrow> get_col k d' = get_col k d"
  by (drule clean_scores_get) (auto split: sum.splits)

lemma create_direction_other:
  "create_direction L d = Inr d' \<Longrightarrow> k \<noteq> col_Direction \<Longrightarrow> get_col k d' = get_col k d"
  by (drule create_direction_get) auto

text \<open>The statements in order, when all of them succeed.\<close>

lemma preprocess_steps_chain:
  assumes "preprocess_steps L df = Inr df1"
  obtains d1 d2 d3 d4 d5 d6 d7 where
    "fill_unknown col_From (cleaned df) = Inr d1" "fill_unknown col_To d1 = Inr d2"
    "fill_unknown col_Status d2 = Inr d3" "convert_flag col_Completed d3 = Inr d4"
    "convert_flag col_Timed_Out d4 = Inr d5" "parse_timestamp L d5 = Inr d6"
    "clean_scores L d6 = Inr d7" "create_direction L d7 = Inr df1"
  using assms unfolding preprocess_steps_def field_steps_def clean_columns_def
  by (auto simp: clean_columns_def split: sum.splits)


lemma preprocess_required:
  assumes "preprocess_steps L df = Inr df1"
  shows "\<exists>f t s. get_col col_From (cleaned df) = Inr f \<and> get_col col_To (cleaned df) = Inr t \<and>
           get_col col_Status (cleaned df) = Inr s \<and>
           get_col col_From df1 = Inr (map fill_cell f) \<and>
           get_col col_To df1 = Inr (map fill_cell t) \<and>
           get_col col_Status df1 = Inr (map fill_cell s) \<and>
           get_col col_Direction df1 =
             Inr (map2 (direction_of L) (map fill_cell f) (map fill_cell t))"
proof -
  from assms obtain d1 d2 d3 d4 d5 d6 d7 where
    s1: "fill_unknown col_From (cleaned df) = Inr d1" and s2: "fill_unknown col_To d1 = Inr d2" and
    s3: "fill_unknown col_Status d2 = Inr d3" and s4: "convert_flag col_Completed d3 = Inr d4" and
    s5: "convert_flag col_Timed_Out d4 = Inr d5" and s6: "parse_timestamp L d5 = Inr d6" and
    s7: "clean_scores L d6 = Inr d7" and s8: "create_direction L d7 = Inr df1"
    by (rule preprocess_steps_chain)
  note other = fill_unknown_other [OF s1] fill_unknown_other [OF s2] fill_unknown_other [OF s3]
    convert_flag_other [OF s4] convert_flag_other [OF s5] parse_timestamp_other [OF s6]
    clean_scores_other [OF s7] create_direction_other [OF s8]
  from s1 obtain f where f: "get_col col_From (cleaned df) = Inr f"
    by (auto simp: fill_unknown_def split: sum.splits)
  from s2 obtain t where t1: "get_col col_To d1 = Inr t"
    by (auto simp: fill_unknown_def split: sum.splits)
  from s3 obtain s where s2': "get_col col_Status d2 = Inr s"
    by (auto simp: fill_unknown_def split: sum.splits)
  have t: "get_col col_To (cleaned df) = Inr t" using t1 by (simp add: other)
  have s: "get_col col_Status (cleaned df) = Inr s" using s2' by (simp add: other)
  have f1: "get_col col_From d1 = Inr (map fill_cell f)"
    using f by (simp add: fill_unknown_get [OF s1])
  have t2: "get_col col_To d2 = Inr (map fill_cell t)"
    using t1 by (simp add: fill_unknown_get [OF s2])
  have s3': "get_col col_Status d3 = Inr (map fill_cell s)"
    using s2' by (simp add: fill_unknown_get [OF s3])
  have f7: "get_col col_From d7 = Inr (map fill_cell f)" using f1 by (simp add: other)
  have t7: "get_col col_To d7 = Inr (map fill_cell t)" using t2 by (simp add: other)
  have s7': "get_col col_Status d7 = Inr (map fill_cell s)" using s3' by (simp add: other)
  from create_direction_get [OF s8] f7 t7
  have df1: "df1 = set_col col_Direction
      (map2 (direction_of L) (map fill_cell f) (map fill_cell t)) d7" by auto
  show ?thesis using f t s f7 t7 s7' by (auto simp: df1)
qed

lemma preprocess_flags:
  assumes "preprocess_steps L df = Inr df1" and "k = col_Completed \<or> k = col_Timed_Out"
  shows "get_col k df1 = map_sum id (map flag_cell) (get_col k (cleaned df))"
proof -
  from assms(1) obtain d1 d2 d3 d4 d5 d6 d7 where
    s1: "fill_unknown col_From (cleaned df) = Inr d1" and s2: "fill_unknown col_To d1 = Inr d2" and
    s3: "fill_unknown col_Status d2 = Inr d3" and s4: "convert_flag col_Completed d3 = Inr d4" and
    s5: "convert_flag col_Timed_Out d4 = Inr d5" and s6: "parse_timestamp L d5 = Inr d6" and
    s7: "clean_scores L d6 = Inr d7" and s8: "create_direction L d7 = Inr df1"
    by (rule preprocess_steps_chain)
  note other = fill_unknown_other [OF s1] fill_unknown_other [OF s2] fill_unknown_other [OF s3]
    convert_flag_other [OF s4] convert_flag_other [OF s5] parse_timestamp_other [OF s6]
    clean_scores_other [OF s7] create_direction_other [OF s8]
  from assms(2) show ?thesis
  proof
    assume k: "k = col_Completed"
    have "get_col k df1 = get_col k d4" by (simp add: k other)
    also have "\<dots> = map_sum id (map flag_cell) (get_col k d3)"
      by (simp add: k convert_flag_get [OF s4])
    also have "get_col k d3 = get_col k (cleaned df)" by (simp add: k other)
    finally show ?thesis .
  next
    assume k: "k = col_Timed_Out"
    have "get_col k df1 = get_col k d5" by (simp add: k other)
    also have "\<dots> = map_sum id (map flag_cell) (get_col k d4)"
      by (simp add: k convert_flag_get [OF s5])
    also have "get_col k d4 = get_col k (cleaned df)" by (simp add: k other)
    finally show ?thesis .
  qed
qed

lemma preprocess_timestamp:
  assumes "preprocess_steps L df = Inr df1"
  shows "case get_col col_Timestamp (cleaned df) of
           Inl e \<Rightarrow> get_col col_Timestamp df1 = Inl KeyError \<and>
                    get_col col_Hour df1 = get_col col_Hour (cleaned df) \<and>
                    get_col col_Date df1 = get_col col_Date (cleaned df)
         | Inr c \<Rightarrow> (\<exists>ts. to_datetime L c = Inr ts \<and> list_all is_datetime ts \<and>
                    get_col col_Timestamp df1 = Inr ts \<and>
                    get_col col_Hour df1 = Inr (map hour_cell ts) \<and>
                    get_col col_Date df1 = Inr (map date_cell ts))"
proof -
  from assms(1) obtain d1 d2 d3 d4 d5 d6 d7 where
    s1: "fill_unknown col_From (cleaned df) = Inr d1" and s2: "fill_unknown col_To d1 = Inr d2" and
    s3: "fill_unknown col_Status d2 = Inr d3" and s4: "convert_flag col_Completed d3 = Inr d4" and
    s5: "convert_flag col_Timed_Out d4 = Inr d5" and s6: "parse_timestamp L d5 = Inr d6" and
    s7: "clean_scores L d6 = Inr d7" and s8: "create_direction L d7 = Inr df1"
    by (rule preprocess_steps_chain)
  note other = fill_unknown_other [OF s1] fill_unknown_other [OF s2] fill_unknown_other [OF s3]
    convert_flag_other [OF s4] convert_flag_other [OF s5] parse_timestamp_other [OF s6]
    clean_scores_other [OF s7] create_direction_other [OF s8]
  have before: "get_col k d5 = get_col k (cleaned df)"
    if "k = col_Timestamp \<or> k = col_Hour \<or> k = col_Date" for k
    using that by (auto simp: other)
  have after: "get_col k df1 = get_col k d6"
    if "k = col_Timestamp \<or> k = col_Hour \<or> k = col_Date" for k
    using that by (auto simp: other)
  show ?thesis
  proof (cases "get_col col_Timestamp (cleaned df)")
    case (Inl e)
    then have "get_col col_Timestamp d5 = Inl e" by (simp add: before)
    with parse_timestamp_get [OF s6] have "d6 = d5" by simp
    moreover from Inl have "e = KeyError" by (simp add: get_col_Inl_iff)
    ultimately show ?thesis using Inl by (simp add: after before)
  next
    case (Inr c)
    then have "get_col col_Timestamp d5 = Inr c" by (simp add: before)
    with parse_timestamp_get [OF s6] obtain ts where
      "to_datetime L c = Inr ts" "list_all is_datetime ts"
      "d6 = set_col col_Date (map date_cell ts)
              (set_col col_Hour (map hour_cell ts) (set_col col_Timestamp ts d5))"
      by auto
    with Inr show ?thesis by (simp add: after)
  qed
qed

lemma preprocess_score:
  assumes "preprocess_steps L df = Inr df1"
  shows "case get_col col_Score (cleaned df) of
           Inl e \<Rightarrow> get_col col_Score df1 = Inl KeyError
         | Inr c \<Rightarrow> (\<exists>v. to_numeric L c = Inr v \<and> get_col col_Score df1 = Inr v)"
proof -
  from assms(1) obtain d1 d2 d3 d4 d5 d6 d7 where
    s1: "fill_unknown col_From (cleaned df) = Inr d1" and s2: "fill_unknown col_To d1 = Inr d2" and
    s3: "fill_unknown col_Status d2 = Inr d3" and s4: "convert_flag col_Completed d3 = Inr d4" and
    s5: "convert_flag col_Timed_Out d4 = Inr d5" and s6: "parse_timestamp L d5 = Inr d6" and
    s7: "clean_scores L d6 = Inr d7" and s8: "create_direction L d7 = Inr df1"
    by (rule preprocess_steps_chain)
  note other = fill_unknown_other [OF s1] fill_unknown_other [OF s2] fill_unknown_other [OF s3]
    convert_flag_other [OF s4] convert_flag_other [OF s5] parse_timestamp_other [OF s6]
    clean_scores_other [OF s7] create_direction_other [OF s8]
  have before: "get_col col_Score d6 = get_col col_Score (cleaned df)" by (simp add: other)
  have after: "get_col col_Score df1 = get_col col_Score d7" by (simp add: other)
  show ?thesis
  proof (cases "get_col col_Score (cleaned df)")
    case (Inl e)
    with clean_scores_get [OF s7] have "d7 = d6" by (simp add: before)
    moreover from Inl have "e = KeyError" by (simp add: get_col_Inl_iff)
    ultimately show ?thesis using Inl by (simp add: after before)
  next
    case (Inr c)
    with clean_scores_get [OF s7] show ?thesis by (auto simp: before after)
  qed
qed

lemma preprocess_other_columns:
  assumes "preprocess_steps L df = Inr df1"
    and "k \<notin> {col_From, col_To, col_Status, col_Completed, col_Timed_Out, col_Timestamp,
               col_Hour, col_Date, col_Score, col_Direction}"
  shows "get_col k df1 = get_col k (cleaned df)"
proof -
  from assms(1) obtain d1 d2 d3 d4 d5 d6 d7 where
    s1: "fill_unknown col_From (cleaned df) = Inr d1" and s2: "fill_unknown col_To d1 = Inr d2" and
    s3: "fill_unknown col_Status d2 = Inr d3" and s4: "convert_flag col_Completed d3 = Inr d4" and
    s5: "convert_flag col_Timed_Out d4 = Inr d5" and s6: "parse_timestamp L d5 = Inr d6" and
    s7: "clean_scores L d6 = Inr d7" and s8: "create_direction L d7 = Inr df1"
    by (rule preprocess_steps_chain)
  note other = fill_unknown_other [OF s1] fill_unknown_other [OF s2] fill_unknown_other [OF s3]
    convert_flag_other [OF s4] convert_flag_other [OF s5] parse_timestamp_other [OF s6]
    clean_scores_other [OF s7] create_direction_other [OF s8]
  from assms(2) show ?thesis by (simp add: other)
qed


subsection \<open>Shape\<close>

lemma nrows_cleaned [simp]: "nrows (cleaned df) = nrows df"
  by (simp add: cleaned_cols)

lemma columns_cleaned: "columns (cleaned df) = map clean_name (columns df)"
  by (simp add: cleaned_cols columns_def split_def)

lemma rect_cleaned [simp]: "rect (cleaned df) = rect df"
  by (simp add: cleaned_cols rect_def list_all_iff split_def)

lemma run_steps_invariant:
  assumes "\<And>s d d'. s \<in> set ss \<Longrightarrow> P d \<Longrightarrow> s d = Inr d' \<Longrightarrow> P d'"
    and "P df" and "run_steps ss df = Inr df'"
  shows "P df'"
  using assms by (induction ss arbitrary: df) (auto split: sum.splits)

lemma shaped_set_col: "shaped n d \<Longrightarrow> length c = n \<Longrightarrow> shaped n (set_col k c d)"
  by (auto simp: shaped_def rect_set_col distinct_set_col)

lemma shaped_get_col: "shaped n d \<Longrightarrow> get_col k d = Inr c \<Longrightarrow> length c = n"
  by (auto simp: shaped_def dest: rect_get_col)

lemma fill_unknown_shaped: "shaped n d \<Longrightarrow> fill_unknown k d = Inr d' \<Longrightarrow> shaped n d'"
  by (auto simp: fill_unknown_def shaped_set_col shaped_get_col split: sum.splits)

lemma convert_flag_shaped: "shaped n d \<Longrightarrow> convert_flag k d = Inr d' \<Longrightarrow> shaped n d'"
  by (auto simp: convert_flag_def shaped_set_col shaped_get_col split: sum.splits if_splits)

lemma parse_timestamp_shaped:
  assumes "shaped n d" and "parse_timestamp L d = Inr d'"
  shows "shaped n d'"
proof (cases "get_col col_Timestamp d")
  case (Inl e)
  with parse_timestamp_get [OF assms(2)] assms(1) show ?thesis by simp
next
  case (Inr c)
  with parse_timestamp_get [OF assms(2)] obtain ts where
    ts: "to_datetime L c = Inr ts" and
    d': "d' = set_col col_Date (map date_cell ts)
              (set_col col_Hour (map hour_cell ts) (set_col col_Timestamp ts d))"
    by auto
  have "length ts = n" using ts Inr assms(1) by (simp add: to_datetime_length shaped_get_col)
  with assms(1) show ?thesis by (simp add: d' shaped_set_col)
qed

lemma clean_scores_shaped:
  assumes "shaped n d" and "clean_scores L d = Inr d'"
  shows "shaped n d'"
proof (cases "get_col col_Score d")
  case (Inl e)
  with clean_scores_get [OF assms(2)] assms(1) show ?thesis by simp
next
  case (Inr c)
  with clean_scores_get [OF assms(2)] obtain v where
    v: "to_numeric L c = Inr v" and d': "d' = set_col col_Score v d"
    by auto
  have "length v = n" using v Inr assms(1) by (simp add: to_numeric_length shaped_get_col)
  with assms(1) show ?thesis by (simp add: d' shaped_set_col)
qed

lemma create_direction_shaped:
  assumes "shaped n d" and "create_direction L d = Inr d'"
  shows "shaped n d'"
proof -
  from create_direction_get [OF assms(2)] obtain f t where
    "get_col col_From d = Inr f" "get_col col_To d = Inr t"
    "d' = set_col col_Direction (map2 (direction_of L) f t) d"
    by auto
  with assms(1) show ?thesis by (simp add: shaped_set_col shaped_get_col)
qed

lemma preprocess_shaped:
  assumes "preprocess_steps L df = Inr df1" and "rect df" and "distinct (map clean_name (columns df))"
  shows "shaped (nrows df) df1"
proof -
  have 0: "shaped (nrows df) (cleaned df)"
    using assms(2,3) by (simp add: shaped_def columns_cleaned)
  from assms(1) have run: "run_steps (field_steps L) (cleaned df) = Inr df1"
    by (simp add: preprocess_steps_def clean_columns_def)
  show ?thesis
  proof (rule run_steps_invariant [where P = "shaped (nrows df)", OF _ 0 run])
    fix s d d'
    assume "s \<in> set (field_steps L)" "shaped (nrows df) d" "s d = Inr d'"
    then show "shaped (nrows df) d'"
      by (auto simp: field_steps_def
          intro: fill_unknown_shaped convert_flag_shaped parse_timestamp_shaped
            clean_scores_shaped create_direction_shaped)
  qed
qed

section \<open>Cleaning of the column names\<close>

text \<open>
  Claim C3, as the specification states it, has every column name stripped of surrounding
  whitespace and then of a single trailing comma. \<^verbatim>\<open>str.rstrip(',')\<close> removes every trailing
  comma: the name \<^verbatim>\<open>'From,,'\<close> becomes \<^verbatim>\<open>'From'\<close>, not \<^verbatim>\<open>'From,'\<close>.
\<close>

theorem clean_name_two_commas:
  "clean_name (lit ''From,,'') \<noteq> spec_clean_name (lit ''From,,'') \<and>
   clean_name (lit ''From,,'') = lit ''From'' \<and>
   spec_clean_name (lit ''From,,'') = lit ''From,''"
  by (simp add: spec_clean_name_def clean_defs lit_def)

text \<open>
  Claim C3, amended: for every input table, preprocessing first replaces each column name
  \<open>n\<close> by \<open>clean_name n\<close>, and every statement that refers to a field by name runs on the table
  with the cleaned names. \<open>clean_name n\<close> is \<open>n\<close> without its leading and trailing whitespace
  (\<open>strip n\<close>, which neither starts nor ends with whitespace) and then without all of its
  trailing commas (so it does not end with a comma).
\<close>

theorem column_names_cleaned:
  "preprocess_data L df =
     (case run_steps (field_steps L)
             (df\<lparr>cols := map (\<lambda>(n, c). (clean_name n, c)) (cols df)\<rparr>) of
        Inl e \<Rightarrow> None
      | Inr d \<Rightarrow> Some d) \<and>
   (\<exists>a b. n = a @ strip n @ b \<and> list_all isspace a \<and> list_all isspace b) \<and>
   (strip n = [] \<or> (\<not> isspace (hd (strip n)) \<and> \<not> isspace (last (strip n)))) \<and>
   (\<exists>k. strip n = clean_name n @ replicate k comma) \<and>
   (clean_name n = [] \<or> last (clean_name n) \<noteq> comma)"
proof -
  have "preprocess_data L df =
     (case run_steps (field_steps L)
             (df\<lparr>cols := map (\<lambda>(n, c). (clean_name n, c)) (cols df)\<rparr>) of
        Inl e \<Rightarrow> None
      | Inr d \<Rightarrow> Some d)"
    by (simp add: preprocess_data_def preprocess_steps_def clean_columns_def cleaned_cols)
  moreover note strip_decomp [of n] clean_name_decomp [of n]
  moreover have "strip n = [] \<or> (\<not> isspace (hd (strip n)) \<and> \<not> isspace (last (strip n)))"
    using strip_ends [of n] by blast
  moreover have "clean_name n = [] \<or> last (clean_name n) \<noteq> comma"
    using clean_name_last [of n] by blast
  ultimately show ?thesis by blast
qed

theorem column_names_cleaned_witness:
  "preprocess_data demo_lib sample_raw =
     (case run_steps (field_steps demo_lib)
             (sample_raw\<lparr>cols := map (\<lambda>(n, c). (clean_name n, c)) (cols sample_raw)\<rparr>) of
        Inl e \<Rightarrow> None
      | Inr d \<Rightarrow> Some d) \<and>
   (\<exists>a b. lit '' From,, '' = a @ strip (lit '' From,, '') @ b \<and>
      list_all isspace a \<and> list_all isspace b) \<and>
   (strip (lit '' From,, '') = [] \<or>
      (\<not> isspace (hd (strip (lit '' From,, ''))) \<and> \<not> isspace (last (strip (lit '' From,, ''))))) \<and>
   (\<exists>k. strip (lit '' From,, '') = clean_name (lit '' From,, '') @ replicate k comma) \<and>
   (clean_name (lit '' From,, '') = [] \<or> last (clean_name (lit '' From,, '')) \<noteq> comma)"
  by (rule column_names_cleaned)

section \<open>Evaluating the samples\<close>

lemma sample_names [simp]:
  "clean_name hdr_From = col_From" "clean_name hdr_Score = col_Score"
  by (simp_all add: clean_defs hdr_From_def hdr_Score_def col_From_def col_Score_def lit_def)



lemmas eval_defs = preprocess_data_def preprocess_steps_def field_steps_def clean_columns_def cleaned_cols
  fill_unknown_def convert_flag_def parse_timestamp_def assign_timestamp_def assign_hour_def assign_date_def
  clean_scores_def create_direction_def get_col_def set_col_def columns_def
  to_numeric_def to_datetime_def dt_hour_def dt_date_def hour_cell_def date_cell_def
  is_float_def is_bool_def is_datetime_def fill_cell_def flag_cell_def fillna_def isna_def map_yes_no_def
  direction_of_def astype_str_def hour_of_def date_of_def ns_per_day_def ns_per_hour_def

lemma sample_well_formed: "well_formed sample_raw"
  by (simp add: well_formed_def sample_raw_def columns_def rect_def)

lemma sample_preprocessed: "preprocess_data demo_lib sample_raw = Some sample_clean"
  by (simp add: sample_raw_def sample_clean_def demo_lib_def eval_defs lit_def str_Yes_def str_No_def)


section \<open>Success and failure of preprocessing\<close>

lemma preprocess_data_Some: "preprocess_data L df = Some df' \<longleftrightarrow> preprocess_steps L df = Inr df'"
  by (simp add: preprocess_data_def split: sum.splits)

lemma preprocess_data_None: "preprocess_data L df = None \<longleftrightarrow> (\<exists>e. preprocess_steps L df = Inl e)"
  by (simp add: preprocess_data_def split: sum.splits)

lemma run_steps_fail_at:
  assumes "i < length ss" and "run_steps (take i ss) df = Inr d" and "(ss ! i) d = Inl e"
  shows "run_steps ss df = Inl e"
proof -
  have "ss = take i ss @ ss ! i # drop (Suc i) ss"
    using assms(1) by (rule id_take_nth_drop)
  then have "run_steps ss df = run_steps (take i ss @ ss ! i # drop (Suc i) ss) df" by simp
  also have "\<dots> = Inl e" using assms(2,3) by (simp add: run_steps_append)
  finally show ?thesis .
qed

lemma to_datetime_Inl: "to_datetime L c = Inl e \<Longrightarrow> e = LibraryError"
  by (auto simp: to_datetime_def split: if_splits option.splits)

lemma to_numeric_Inl: "to_numeric L c = Inl e \<Longrightarrow> e = LibraryError"
  by (auto simp: to_numeric_def split: if_splits option.splits)

lemma parse_timestamp_succeeds:
  assumes "\<And>c. get_col col_Timestamp d = Inr c \<Longrightarrow> \<exists>ts. to_datetime L c = Inr ts"
  shows "\<exists>d'. parse_timestamp L d = Inr d'"
proof (cases "get_col col_Timestamp d")
  case (Inl e)
  then show ?thesis by (simp add: parse_timestamp_def get_col_Inl_iff)
next
  case (Inr c)
  with assms obtain ts where ts: "to_datetime L c = Inr ts" by blast
  have "list_all is_datetime ts" using ts by (rule to_datetime_is_datetime)
  with Inr ts show ?thesis
    by (simp add: parse_timestamp_def assign_timestamp_def assign_hour_def assign_date_def)
qed

lemma clean_scores_succeeds:
  assumes "\<And>c. get_col col_Score d = Inr c \<Longrightarrow> \<exists>v. to_numeric L c = Inr v"
  shows "\<exists>d'. clean_scores L d = Inr d'"
proof (cases "get_col col_Score d")
  case (Inl e)
  then show ?thesis by (simp add: clean_scores_def get_col_Inl_iff)
next
  case (Inr c)
  with assms obtain v where "to_numeric L c = Inr v" by blast
  with Inr show ?thesis by (simp add: clean_scores_def)
qed

lemma preprocess_steps_succeeds:
  assumes f: "get_col col_From (cleaned df) = Inr f" and t: "get_col col_To (cleaned df) = Inr t"
    and s: "get_col col_Status (cleaned df) = Inr s"
    and ts: "\<And>c. get_col col_Timestamp (cleaned df) = Inr c \<Longrightarrow> \<exists>ts. to_datetime L c = Inr ts"
    and sc: "\<And>c. get_col col_Score (cleaned df) = Inr c \<Longrightarrow> \<exists>v. to_numeric L c = Inr v"
  shows "\<exists>df1. preprocess_steps L df = Inr df1"
proof -
  obtain d1 where s1: "fill_unknown col_From (cleaned df) = Inr d1"
    using f by (simp add: fill_unknown_def)
  have "get_col col_To d1 = Inr t" using t by (simp add: fill_unknown_other [OF s1])
  then obtain d2 where s2: "fill_unknown col_To d1 = Inr d2" by (simp add: fill_unknown_def)
  have "get_col col_Status d2 = Inr s"
    using s by (simp add: fill_unknown_other [OF s1] fill_unknown_other [OF s2])
  then obtain d3 where s3: "fill_unknown col_Status d2 = Inr d3" by (simp add: fill_unknown_def)
  obtain d4 where s4: "convert_flag col_Completed d3 = Inr d4" using convert_flag_total by blast
  obtain d5 where s5: "convert_flag col_Timed_Out d4 = Inr d5" using convert_flag_total by blast
  note other5 = fill_unknown_other [OF s1] fill_unknown_other [OF s2] fill_unknown_other [OF s3]
    convert_flag_other [OF s4] convert_flag_other [OF s5]
  have "get_col col_Timestamp d5 = get_col col_Timestamp (cleaned df)" by (simp add: other5)
  with ts obtain d6 where s6: "parse_timestamp L d5 = Inr d6"
    using parse_timestamp_succeeds [of d5 L] by auto
  have "get_col col_Score d6 = get_col col_Score (cleaned df)"
    by (simp add: other5 parse_timestamp_other [OF s6])
  with sc obtain d7 where s7: "clean_scores L d6 = Inr d7"
    using clean_scores_succeeds [of d6 L] by auto
  note other7 = other5 parse_timestamp_other [OF s6] clean_scores_other [OF s7]
  have "get_col col_From d7 = Inr (map fill_cell f)"
    using f by (simp add: other7 fill_unknown_get [OF s1])
  moreover have "get_col col_To d7 = Inr (map fill_cell t)"
    using \<open>get_col col_To d1 = Inr t\<close> by (simp add: other7 fill_unknown_get [OF s2])
  ultimately obtain df1 where s8: "create_direction L d7 = Inr df1"
    by (simp add: create_direction_def)
  show ?thesis
    by (simp add: preprocess_steps_def field_steps_def clean_columns_def s1 s2 s3 s4 s5 s6 s7 s8)
qed

lemma preprocess_missing_None:
  assumes "k = col_From \<or> k = col_To \<or> k = col_Status" and "k \<notin> set (columns (cleaned df))"
  shows "preprocess_data L df = None"
proof (cases "preprocess_steps L df")
  case (Inl e)
  then show ?thesis by (simp add: preprocess_data_def)
next
  case (Inr df1)
  from preprocess_required [OF Inr] assms show ?thesis by (auto dest: get_col_Inr_mem)
qed

text \<open>
  Claim C10: preprocessing yields no table for every input that lacks a From, To or Status
  column (under the cleaned names); the Completed, Timed Out, Timestamp and Translation Score
  columns are optional. When preprocessing of a well-formed table fails, a required column is
  missing or one of the two conversions of the library raised on a column that is present: the
  absence of an optional column is never the cause. In particular a table with the three
  required columns and none of the optional ones is preprocessed.
\<close>

theorem required_and_optional_columns:
  "(col_From \<notin> set (columns (cleaned df)) \<or> col_To \<notin> set (columns (cleaned df)) \<or>
      col_Status \<notin> set (columns (cleaned df)) \<longrightarrow> preprocess_data L df = None) \<and>
   (well_formed df \<and> preprocess_data L df = None \<longrightarrow>
      col_From \<notin> set (columns (cleaned df)) \<or> col_To \<notin> set (columns (cleaned df)) \<or>
      col_Status \<notin> set (columns (cleaned df)) \<or>
      (\<exists>c. get_col col_Timestamp (cleaned df) = Inr c \<and> to_datetime L c = Inl LibraryError) \<or>
      (\<exists>c. get_col col_Score (cleaned df) = Inr c \<and> to_numeric L c = Inl LibraryError)) \<and>
   (well_formed df \<and> col_From \<in> set (columns (cleaned df)) \<and>
      col_To \<in> set (columns (cleaned df)) \<and> col_Status \<in> set (columns (cleaned df)) \<and>
      col_Completed \<notin> set (columns (cleaned df)) \<and> col_Timed_Out \<notin> set (columns (cleaned df)) \<and>
      col_Timestamp \<notin> set (columns (cleaned df)) \<and> col_Score \<notin> set (columns (cleaned df)) \<longrightarrow>
      preprocess_data L df \<noteq> None)"
proof -
  have 1: "preprocess_data L df = None"
    if "col_From \<notin> set (columns (cleaned df)) \<or> col_To \<notin> set (columns (cleaned df)) \<or>
      col_Status \<notin> set (columns (cleaned df))"
    using that preprocess_missing_None [of _ df L] by blast
  have 2: "col_From \<notin> set (columns (cleaned df)) \<or> col_To \<notin> set (columns (cleaned df)) \<or>
      col_Status \<notin> set (columns (cleaned df)) \<or>
      (\<exists>c. get_col col_Timestamp (cleaned df) = Inr c \<and> to_datetime L c = Inl LibraryError) \<or>
      (\<exists>c. get_col col_Score (cleaned df) = Inr c \<and> to_numeric L c = Inl LibraryError)"
    if none: "preprocess_data L df = None"
  proof (rule ccontr)
    assume neg: "\<not> ?thesis"
    then obtain f t s where "get_col col_From (cleaned df) = Inr f"
      "get_col col_To (cleaned df) = Inr t" "get_col col_Status (cleaned df) = Inr s"
      by (meson mem_get_col)
    moreover have "\<exists>ts. to_datetime L c = Inr ts" if "get_col col_Timestamp (cleaned df) = Inr c" for c
      using neg that by (cases "to_datetime L c") (auto dest: to_datetime_Inl)
    moreover have "\<exists>v. to_numeric L c = Inr v" if "get_col col_Score (cleaned df) = Inr c" for c
      using neg that by (cases "to_numeric L c") (auto dest: to_numeric_Inl)
    ultimately have "\<exists>df1. preprocess_steps L df = Inr df1"
      by (rule preprocess_steps_succeeds)
    with none show False by (auto simp: preprocess_data_def)
  qed
  have 3: "preprocess_data L df \<noteq> None"
    if "col_From \<in> set (columns (cleaned df))" "col_To \<in> set (columns (cleaned df))"
      "col_Status \<in> set (columns (cleaned df))" "col_Timestamp \<notin> set (columns (cleaned df))"
      "col_Score \<notin> set (columns (cleaned df))"
    using 2 that by (auto dest: get_col_Inr_mem)
  from 1 2 3 show ?thesis by blast
qed

lemma sample_columns:
  "columns (cleaned sample_raw) =
     [col_From, col_To, col_Status, col_Completed, col_Timed_Out, col_Timestamp, col_Score]"
  by (simp add: columns_cleaned) (simp add: sample_raw_def columns_def)


theorem required_and_optional_columns_witness:
  "col_To \<notin> set (columns (cleaned sample_no_to)) \<and> preprocess_data demo_lib sample_no_to = None \<and>
   well_formed sample_bool_ts \<and> preprocess_data demo_lib sample_bool_ts = None \<and>
   get_col col_Timestamp (cleaned sample_bool_ts) = Inr [Bool True] \<and>
   to_datetime demo_lib [Bool True] = Inl LibraryError \<and>
   well_formed sample_minimal \<and> col_From \<in> set (columns (cleaned sample_minimal)) \<and>
   col_To \<in> set (columns (cleaned sample_minimal)) \<and>
   col_Status \<in> set (columns (cleaned sample_minimal)) \<and>
   col_Completed \<notin> set (columns (cleaned sample_minimal)) \<and>
   col_Timed_Out \<notin> set (columns (cleaned sample_minimal)) \<and>
   col_Timestamp \<notin> set (columns (cleaned sample_minimal)) \<and>
   col_Score \<notin> set (columns (cleaned sample_minimal)) \<and>
   preprocess_data demo_lib sample_minimal \<noteq> None"
proof -
  have a: "columns (cleaned sample_no_to) = [col_From, col_Status]"
    by (simp add: columns_cleaned) (simp add: sample_no_to_def columns_def)
  have b: "columns (cleaned sample_minimal) = [col_From, col_To, col_Status]"
    by (simp add: columns_cleaned) (simp add: sample_minimal_def columns_def)
  have c: "well_formed sample_bool_ts" "well_formed sample_minimal"
    by (simp_all add: well_formed_def sample_bool_ts_def sample_minimal_def columns_def rect_def)
  have d: "get_col col_Timestamp (cleaned sample_bool_ts) = Inr [Bool True]"
    by (simp add: cleaned_cols sample_bool_ts_def get_col_def)
  have e: "to_datetime demo_lib [Bool True] = Inl LibraryError"
    by (simp add: to_datetime_def demo_lib_def is_datetime_def is_bool_def)
  have f: "preprocess_data demo_lib sample_bool_ts = None"
    by (simp add: sample_bool_ts_def demo_lib_def eval_defs)
  show ?thesis
    using required_and_optional_columns [of sample_no_to demo_lib]
      required_and_optional_columns [of sample_minimal demo_lib] a b c d e f
    by simp
qed

section \<open>Errors yield no table\<close>

text \<open>
  Claim C9: when \<^verbatim>\<open>read_csv\<close> raises, or when a statement of the preprocessing raises after the
  statements before it have run, the loaders and \<open>preprocess_data\<close> return no table; a table
  that is returned has gone through every statement.
\<close>

theorem failure_yields_no_table:
  "(read_csv src = Inl e \<longrightarrow>
      load_data_from_file read_csv L src = None \<and> load_data_from_upload read_csv L src = None) \<and>
   (read_csv src = Inr df \<and> i < length (clean_columns # field_steps L) \<and>
    run_steps (take i (clean_columns # field_steps L)) df = Inr d \<and>
    ((clean_columns # field_steps L) ! i) d = Inl e' \<longrightarrow>
      preprocess_data L df = None \<and>
      load_data_from_file read_csv L src = None \<and> load_data_from_upload read_csv L src = None) \<and>
   (load_data_from_file read_csv L src = Some df' \<or> load_data_from_upload read_csv L src = Some df' \<longrightarrow>
      (\<exists>df0. read_csv src = Inr df0 \<and> run_steps (clean_columns # field_steps L) df0 = Inr df'))"
proof -
  have 1: "load_data_from_file read_csv L src = None \<and> load_data_from_upload read_csv L src = None"
    if "read_csv src = Inl e"
    using that by (simp add: load_data_from_file_def load_data_from_upload_def)
  have 2: "preprocess_data L df = None \<and>
      load_data_from_file read_csv L src = None \<and> load_data_from_upload read_csv L src = None"
    if "read_csv src = Inr df" "i < length (clean_columns # field_steps L)"
      "run_steps (take i (clean_columns # field_steps L)) df = Inr d"
      "((clean_columns # field_steps L) ! i) d = Inl e'"
  proof -
    from that(2-4) have "run_steps (clean_columns # field_steps L) df = Inl e'"
      by (rule run_steps_fail_at)
    then have "preprocess_data L df = None"
      by (simp add: preprocess_data_def preprocess_steps_def)
    with that(1) show ?thesis
      by (simp add: load_data_from_file_def load_data_from_upload_def)
  qed
  have 3: "\<exists>df0. read_csv src = Inr df0 \<and> run_steps (clean_columns # field_steps L) df0 = Inr df'"
    if "load_data_from_file read_csv L src = Some df' \<or> load_data_from_upload read_csv L src = Some df'"
    using that
    by (auto simp: load_data_from_file_def load_data_from_upload_def preprocess_data_Some
        preprocess_steps_def simp del: run_steps.simps split: sum.splits)
  from 1 2 3 show ?thesis by blast
qed

theorem failure_yields_no_table_witness:
  "demo_read_csv ''absent.csv'' = Inl LibraryError \<and>
   load_data_from_file demo_read_csv demo_lib ''absent.csv'' = None \<and>
   load_data_from_upload demo_read_csv demo_lib ''absent.csv'' = None \<and>
   demo_read_csv ''no_to.csv'' = Inr sample_no_to \<and>
   2 < length (clean_columns # field_steps demo_lib) \<and>
   run_steps (take 2 (clean_columns # field_steps demo_lib)) sample_no_to = Inr sample_no_to \<and>
   ((clean_columns # field_steps demo_lib) ! 2) sample_no_to = Inl KeyError \<and>
   preprocess_data demo_lib sample_no_to = None \<and>
   load_data_from_file demo_read_csv demo_lib ''no_to.csv'' = None \<and>
   load_data_from_upload demo_read_csv demo_lib ''no_to.csv'' = None \<and>
   load_data_from_file demo_read_csv demo_lib ''results.csv'' = Some sample_clean \<and>
   demo_read_csv ''results.csv'' = Inr sample_raw \<and>
   run_steps (clean_columns # field_steps demo_lib) sample_raw = Inr sample_clean"
proof -
  have a: "demo_read_csv ''absent.csv'' = Inl LibraryError"
    "demo_read_csv ''no_to.csv'' = Inr sample_no_to" "demo_read_csv ''results.csv'' = Inr sample_raw"
    by (simp_all add: demo_read_csv_def)
  have b: "2 < length (clean_columns # field_steps demo_lib)" by (simp add: field_steps_def)
  have c: "run_steps (take 2 (clean_columns # field_steps demo_lib)) sample_no_to = Inr sample_no_to"
    by (simp add: field_steps_def numeral_2_eq_2 sample_no_to_def clean_columns_def cleaned_cols
        fill_unknown_def get_col_def set_col_def fill_cell_def fillna_def isna_def)
  have d: "((clean_columns # field_steps demo_lib) ! 2) sample_no_to = Inl KeyError"
    by (simp add: field_steps_def numeral_2_eq_2 sample_no_to_def fill_unknown_def get_col_def)
  have e: "load_data_from_file demo_read_csv demo_lib ''results.csv'' = Some sample_clean"
    by (simp add: load_data_from_file_def a sample_preprocessed)
  show ?thesis
    using failure_yields_no_table [of demo_read_csv "''absent.csv''" LibraryError demo_lib]
      failure_yields_no_table [of demo_read_csv "''no_to.csv''" _ demo_lib sample_no_to 2
        sample_no_to KeyError]
      failure_yields_no_table [of demo_read_csv "''results.csv''" _ demo_lib _ _ _ _ sample_clean]
      a b c d e
    by (auto simp del: run_steps.simps)
qed


section \<open>The flags\<close>

text \<open>
  Claim C5 has every row of every preprocessed table carry a Completed and a Timed Out flag
  that is never absent. The conversion stands under \<^verbatim>\<open>if 'Completed' in df.columns\<close> (and the
  like for Timed Out): a table without the column is preprocessed and gets none, so its rows
  have no such field.
\<close>

theorem flags_absent_without_column:
  "preprocess_data demo_lib sample_minimal = Some sample_minimal_clean \<and>
   nrows sample_minimal_clean = 1 \<and>
   get_col col_Completed sample_minimal_clean = Inl KeyError \<and>
   get_col col_Timed_Out sample_minimal_clean = Inl KeyError \<and>
   map_of (row_at sample_minimal_clean 0) col_Completed = None \<and>
   map_of (row_at sample_minimal_clean 0) col_Timed_Out = None"
proof -
  have "preprocess_data demo_lib sample_minimal = Some sample_minimal_clean"
    by (simp add: sample_minimal_def sample_minimal_clean_def eval_defs)
  moreover have "get_col col_Completed sample_minimal_clean = Inl KeyError"
    "get_col col_Timed_Out sample_minimal_clean = Inl KeyError"
    "nrows sample_minimal_clean = 1"
    by (simp_all add: sample_minimal_clean_def get_col_def)
  moreover have "map_of (row_at sample_minimal_clean 0) col_Completed = None"
    "map_of (row_at sample_minimal_clean 0) col_Timed_Out = None"
    by (simp_all add: row_at_def sample_minimal_clean_def)
  ultimately show ?thesis by simp
qed

text \<open>
  Claim C5, amended: after preprocessing, the table has a Completed (a Timed Out) column
  exactly when the source table has one under the cleaned name. Where it has, the field of
  every row is a boolean: true where the source has the string \<^verbatim>\<open>'Yes'\<close>, false where it has
  \<^verbatim>\<open>'No'\<close>, and false for any other value, a missing one included; no flag of the column is
  absent. Where the source has no such column, preprocessing creates none.
\<close>

theorem flags_boolean:
  assumes "well_formed df" and "preprocess_data L df = Some df'"
    and "k = col_Completed \<or> k = col_Timed_Out"
  shows "case get_col k (cleaned df) of
           Inr c \<Rightarrow>
             (\<exists>flags. get_col k df' = Inr flags \<and>
                flags = map (\<lambda>x. if x = Str str_Yes then Bool True
                                   else if x = Str str_No then Bool False else Bool False) c \<and>
                length flags = nrows df' \<and> list_all is_bool flags \<and> \<not> list_ex isna flags)
         | Inl e \<Rightarrow> get_col k df' = Inl KeyError \<and> k \<notin> set (columns df')"
proof (cases "get_col k (cleaned df)")
  case (Inl e)
  from assms(2) have steps: "preprocess_steps L df = Inr df'" by (simp add: preprocess_data_Some)
  from Inl have "e = KeyError" by (simp add: get_col_Inl_iff)
  with preprocess_flags [OF steps assms(3)] Inl have g: "get_col k df' = Inl KeyError" by simp
  then have "k \<notin> set (columns df')" by (simp add: get_col_Inl_iff)
  with g Inl show ?thesis by simp
next
  case (Inr c)
  from assms(2) have steps: "preprocess_steps L df = Inr df'" by (simp add: preprocess_data_Some)
  have "get_col k df' = Inr (map flag_cell c)"
    using preprocess_flags [OF steps assms(3)] Inr by simp
  moreover have "shaped (nrows df) df'"
    using steps assms(1) by (auto simp: well_formed_def intro: preprocess_shaped)
  ultimately have "length (map flag_cell c) = nrows df'"
    by (auto simp: shaped_def dest: rect_get_col)
  moreover have "map flag_cell c = map (\<lambda>x. if x = Str str_Yes then Bool True
                              else if x = Str str_No then Bool False else Bool False) c"
    by (simp add: flag_cell_eq)
  moreover have "list_all is_bool (map flag_cell c)" "\<not> list_ex isna (map flag_cell c)"
    by (simp_all add: flag_cell_eq is_bool_def isna_def list_all_iff list_ex_iff)
  ultimately show ?thesis using \<open>get_col k df' = Inr (map flag_cell c)\<close> Inr by simp
qed

theorem flags_boolean_witness:
  "well_formed sample_raw \<and> preprocess_data demo_lib sample_raw = Some sample_clean \<and>
   get_col col_Completed (cleaned sample_raw) = Inr [Str str_Yes, Str str_No, NaN] \<and>
   get_col col_Completed sample_clean = Inr [Bool True, Bool False, Bool False] \<and>
   nrows sample_clean = 3 \<and>
   well_formed sample_minimal \<and>
   preprocess_data demo_lib sample_minimal = Some sample_minimal_clean \<and>
   get_col col_Timed_Out (cleaned sample_minimal) = Inl KeyError \<and>
   get_col col_Timed_Out sample_minimal_clean = Inl KeyError \<and>
   col_Timed_Out \<notin> set (columns sample_minimal_clean)"
proof -
  have c: "get_col col_Completed (cleaned sample_raw) = Inr [Str str_Yes, Str str_No, NaN]"
    by (simp add: cleaned_cols sample_raw_def get_col_def)
  have m: "well_formed sample_minimal"
    by (simp add: well_formed_def sample_minimal_def columns_def rect_def)
  have p: "preprocess_data demo_lib sample_minimal = Some sample_minimal_clean"
    by (simp add: sample_minimal_def sample_minimal_clean_def eval_defs)
  have a: "get_col col_Timed_Out (cleaned sample_minimal) = Inl KeyError"
    by (simp add: cleaned_cols sample_minimal_def get_col_def)
  from flags_boolean [OF sample_well_formed sample_preprocessed, of col_Completed] c
  have 1: "get_col col_Completed sample_clean = Inr [Bool True, Bool False, Bool False] \<and>
      nrows sample_clean = 3"
    by (auto simp: str_Yes_def str_No_def lit_def)
  from flags_boolean [OF m p, of col_Timed_Out] a
  have 2: "get_col col_Timed_Out sample_minimal_clean = Inl KeyError \<and>
      col_Timed_Out \<notin> set (columns sample_minimal_clean)"
    by simp
  from 1 2 c m p a sample_well_formed sample_preprocessed show ?thesis by simp
qed

section \<open>The translation direction\<close>

text \<open>
  Claim C6: after preprocessing, From and To are the source columns with every missing value
  replaced by \<^verbatim>\<open>'Unknown'\<close>, and the Translation Direction of every row is the string of its
  From value, the separator and the string of its To value. Every row has one, and none is
  absent.
\<close>

theorem direction_concatenation:
  assumes "well_formed df" and "preprocess_data L df = Some df'"
  shows "\<exists>f t from_filled to_filled direction.
           get_col col_From (cleaned df) = Inr f \<and> get_col col_To (cleaned df) = Inr t \<and>
           from_filled = map (\<lambda>c. if isna c then Str str_Unknown else c) f \<and>
           to_filled = map (\<lambda>c. if isna c then Str str_Unknown else c) t \<and>
           get_col col_From df' = Inr from_filled \<and> get_col col_To df' = Inr to_filled \<and>
           get_col col_Direction df' = Inr direction \<and>
           direction = map2 (\<lambda>a b. Str (astype_str L a @ arrow @ astype_str L b))
                         from_filled to_filled \<and>
           length direction = nrows df' \<and> \<not> list_ex isna direction"
proof -
  from assms(2) have steps: "preprocess_steps L df = Inr df'" by (simp add: preprocess_data_Some)
  from preprocess_required [OF steps] obtain f t where
    f: "get_col col_From (cleaned df) = Inr f" and t: "get_col col_To (cleaned df) = Inr t" and
    f': "get_col col_From df' = Inr (map fill_cell f)" and
    t': "get_col col_To df' = Inr (map fill_cell t)" and
    d': "get_col col_Direction df' = Inr (map2 (direction_of L) (map fill_cell f) (map fill_cell t))"
    by blast
  have fill: "fill_cell = (\<lambda>c. if isna c then Str str_Unknown else c)"
    by (simp add: fun_eq_iff fill_cell_def fillna_def)
  have dir: "direction_of L = (\<lambda>a b. Str (astype_str L a @ arrow @ astype_str L b))"
    by (simp add: fun_eq_iff direction_of_def)
  have "shaped (nrows df) df'"
    using steps assms(1) by (auto simp: well_formed_def intro: preprocess_shaped)
  with d' have len: "length (map2 (direction_of L) (map fill_cell f) (map fill_cell t)) = nrows df'"
    by (auto simp: shaped_def dest: rect_get_col)
  have "\<not> list_ex isna (map2 (direction_of L) (map fill_cell f) (map fill_cell t))"
    by (auto simp: list_ex_iff direction_of_def isna_def)
  with f t f' t' d' len show ?thesis unfolding fill dir by blast
qed

theorem direction_concatenation_witness:
  "well_formed sample_raw \<and> preprocess_data demo_lib sample_raw = Some sample_clean \<and>
   get_col col_From (cleaned sample_raw) = Inr [Str (lit ''EN''), Str (lit ''EN''), NaN] \<and>
   get_col col_To (cleaned sample_raw) =
     Inr [Str (lit ''FR''), Str (lit ''FR''), Str (lit ''DE'')] \<and>
   get_col col_From sample_clean = Inr [Str (lit ''EN''), Str (lit ''EN''), Str str_Unknown] \<and>
   get_col col_To sample_clean = Inr [Str (lit ''FR''), Str (lit ''FR''), Str (lit ''DE'')] \<and>
   get_col col_Direction sample_clean =
     Inr [Str (lit ''EN'' @ arrow @ lit ''FR''), Str (lit ''EN'' @ arrow @ lit ''FR''),
          Str (str_Unknown @ arrow @ lit ''DE'')]"
proof -
  have "get_col col_From (cleaned sample_raw) = Inr [Str (lit ''EN''), Str (lit ''EN''), NaN]"
    "get_col col_To (cleaned sample_raw) = Inr [Str (lit ''FR''), Str (lit ''FR''), Str (lit ''DE'')]"
    by (simp_all add: cleaned_cols sample_raw_def get_col_def)
  then show ?thesis
    using direction_concatenation [OF sample_well_formed sample_preprocessed]
      sample_well_formed sample_preprocessed
    by (auto simp: isna_def astype_str_def)
qed

section \<open>Aggregation\<close>

subsection \<open>Row filters\<close>

lemma select_Nil [simp]: "select [] xs = []" "select m [] = []"
  by (simp_all add: select_def)

lemma select_Cons [simp]: "select (b # m) (x # xs) = (if b then x # select m xs else select m xs)"
  by (simp add: select_def)

lemma select_map: "select m (map f xs) = map f (select m xs)"
  by (induction m xs rule: list_induct2') simp_all

lemma length_select: "length xs = length ys \<Longrightarrow> length (select m xs) = length (select m ys)"
proof (induction m arbitrary: xs ys)
  case Nil
  then show ?case by simp
next
  case (Cons b m)
  then show ?case by (cases xs; cases ys) auto
qed

lemma set_select: "set (select m xs) \<subseteq> set xs"
  by (induction m xs rule: list_induct2') auto

lemma list_all_select: "list_all P xs \<Longrightarrow> list_all P (select m xs)"
  using set_select [of m xs] by (auto simp: list_all_iff)

lemma select_pred:
  "select (map p xs) xs = filter p xs"
  by (induction xs) auto

lemma get_col_filter_rows: "get_col k (filter_rows m df) = map_sum id (select m) (get_col k df)"
proof -
  have "map_of (map (\<lambda>(n, c). (n, select m c)) al) k = map_option (select m) (map_of al k)" for al
    by (induction al) auto
  from this [of "cols df"] show ?thesis
    by (cases "map_of (cols df) k") (simp_all add: get_col_def filter_rows_def)
qed

lemma columns_filter_rows [simp]: "columns (filter_rows m df) = columns df"
  by (simp add: columns_def filter_rows_def split_def)

lemma nrows_filter_rows: "nrows (filter_rows m df) = length (select m (replicate (nrows df) ()))"
  by (simp add: filter_rows_def)

lemma rect_filter_rows: "rect df \<Longrightarrow> rect (filter_rows m df)"
proof -
  assume r: "rect df"
  have "length (select m c) = length (select m (replicate (nrows df) ()))"
    if "(n, c) \<in> set (cols df)" for n c
  proof (rule length_select)
    from r that show "length c = length (replicate (nrows df) ())"
      by (auto simp: rect_def list_all_iff)
  qed
  then show ?thesis by (auto simp: rect_def filter_rows_def list_all_iff)
qed

lemma get_col_filter_rows_Inr:
  "get_col k (filter_rows m df) = Inr c \<longleftrightarrow> (\<exists>c'. get_col k df = Inr c' \<and> c = select m c')"
  by (cases "get_col k df") (auto simp: get_col_filter_rows)

lemma clean_table_filter_rows: "clean_table df \<Longrightarrow> clean_table (filter_rows m df)"
  unfolding clean_table_def
  by (auto simp: get_col_filter_rows_Inr rect_filter_rows list_all_select)


subsection \<open>Sums and means\<close>

lemma numeric_values_bool:
  "list_all is_bool c \<Longrightarrow> numeric_values c = Inr (map (\<lambda>x. if x = Bool True then 1 else 0) c)"
proof (induction c)
  case Nil
  then show ?case by simp
next
  case (Cons x c)
  then show ?case by (cases x) (auto simp: is_bool_def)
qed

lemma sum_flags:
  "sum_list (map (\<lambda>x. if x = Bool True then 1 else 0) c) = real (length (filter (\<lambda>x. x = Bool True) c))"
  by (induction c) auto

lemma col_sum_bool:
  "list_all is_bool c \<Longrightarrow> col_sum c = Inr (real (length (filter (\<lambda>x. x = Bool True) c)))"
  by (simp add: col_sum_def numeric_values_bool sum_flags)

lemma numeric_values_float:
  "list_all is_float c \<Longrightarrow>
   numeric_values c = Inr (concat (map (\<lambda>x. case x of Num r \<Rightarrow> [r] | _ \<Rightarrow> []) c))"
proof (induction c)
  case Nil
  then show ?case by simp
next
  case (Cons x c)
  then show ?case by (cases x) (auto simp: is_float_def)
qed

lemma col_mean_total:
  "list_all is_float c \<or> list_all is_bool c \<Longrightarrow> \<exists>a. col_mean c = Inr a"
  by (auto simp: col_mean_def numeric_values_float numeric_values_bool)

lemma sum_if_present_flags:
  assumes "rect df" and "\<And>c. get_col k df = Inr c \<Longrightarrow> list_all is_bool c"
  shows "\<exists>x. sum_if_present k df = Inr x \<and> 0 \<le> x \<and> x \<le> real (nrows df) \<and>
           x = (case get_col k df of
                  Inl e \<Rightarrow> 0
                | Inr c \<Rightarrow> real (length (filter (\<lambda>x. x = Bool True) c)))"
proof (cases "get_col k df")
  case (Inl e)
  then have "k \<notin> set (columns df)" by (simp add: get_col_Inl_iff)
  with Inl show ?thesis by (simp add: sum_if_present_def)
next
  case (Inr c)
  then have "k \<in> set (columns df)" by (rule get_col_Inr_mem)
  moreover have "list_all is_bool c" using Inr by (rule assms(2))
  moreover have "length c = nrows df" using assms(1) Inr by (rule rect_get_col)
  moreover have "length (filter (\<lambda>x. x = Bool True) c) \<le> length c" by simp
  ultimately show ?thesis using Inr by (simp add: sum_if_present_def col_sum_bool)
qed

lemma mean_if_present_total:
  assumes "\<And>c. get_col k df = Inr c \<Longrightarrow> list_all is_float c \<or> list_all is_bool c"
  shows "\<exists>a. mean_if_present k df = Inr a"
proof (cases "get_col k df")
  case (Inl e)
  then show ?thesis by (simp add: mean_if_present_def get_col_Inl_iff)
next
  case (Inr c)
  with assms [OF Inr] col_mean_total [of c] show ?thesis
    by (auto simp: mean_if_present_def dest: get_col_Inr_mem)
qed

lemma rate_bounds:
  fixes x :: real
  assumes "0 \<le> x" and "x \<le> real n" and "0 < n"
  shows "0 \<le> x / real n * 100" and "x / real n * 100 \<le> 100"
  using assms by (simp_all add: field_simps)

lemma summary_stats_clean:
  assumes "clean_table df"
  obtains x y a where
    "x = (case get_col col_Completed df of
            Inl e \<Rightarrow> 0 | Inr c \<Rightarrow> real (length (filter (\<lambda>x. x = Bool True) c)))"
    "y = (case get_col col_Timed_Out df of
            Inl e \<Rightarrow> 0 | Inr c \<Rightarrow> real (length (filter (\<lambda>x. x = Bool True) c)))"
    "0 \<le> x" "x \<le> real (nrows df)" "0 \<le> y" "y \<le> real (nrows df)"
    "create_summary_stats df =
       Inr \<lparr>total_translations = nrows df, completed_translations = x,
            timed_out_translations = y,
            completion_rate = (if nrows df > 0 then x / real (nrows df) * 100 else 0),
            timeout_rate = (if nrows df > 0 then y / real (nrows df) * 100 else 0),
            avg_score = a\<rparr>"
proof -
  from assms have r: "rect df" by (simp add: clean_table_def)
  obtain x where x: "sum_if_present col_Completed df = Inr x" "0 \<le> x" "x \<le> real (nrows df)"
    "x = (case get_col col_Completed df of
            Inl e \<Rightarrow> 0 | Inr c \<Rightarrow> real (length (filter (\<lambda>x. x = Bool True) c)))"
    using sum_if_present_flags [OF r, of col_Completed] assms by (auto simp: clean_table_def)
  obtain y where y: "sum_if_present col_Timed_Out df = Inr y" "0 \<le> y" "y \<le> real (nrows df)"
    "y = (case get_col col_Timed_Out df of
            Inl e \<Rightarrow> 0 | Inr c \<Rightarrow> real (length (filter (\<lambda>x. x = Bool True) c)))"
    using sum_if_present_flags [OF r, of col_Timed_Out] assms by (auto simp: clean_table_def)
  obtain a where a: "mean_if_present col_Score df = Inr a"
    using mean_if_present_total [of col_Score df] assms by (auto simp: clean_table_def)
  have "create_summary_stats df =
       Inr \<lparr>total_translations = nrows df, completed_translations = x,
            timed_out_translations = y,
            completion_rate = (if nrows df > 0 then x / real (nrows df) * 100 else 0),
            timeout_rate = (if nrows df > 0 then y / real (nrows df) * 100 else 0),
            avg_score = a\<rparr>"
    by (simp add: create_summary_stats_def Let_def percent_def truediv_def x(1) y(1) a)
  with x(2-4) y(2-4) show ?thesis by (intro that [of x y a])
qed

section \<open>Completion rate and timeout rate\<close>

text \<open>Without a row to divide by, the percentage is no number: the division raises.\<close>

lemma percent_no_rows: "percent x 0 = Inl ZeroDivisionError"
  by (simp add: percent_def truediv_def)

text \<open>
  Claim C4: for every table that reaches the aggregation (\<open>clean_table\<close>: the tables that
  \<open>preprocess_data\<close> returns and the row filters keep, see \<open>preprocess_clean_table\<close> and
  \<open>clean_table_filter_rows\<close>), \<open>create_summary_stats\<close> returns, the two rates are the number of
  true flags divided by the number of rows, times 100, they lie between 0 and 100, and they
  are 0 when the table has no row: the division, which raises on a zero divisor
  (\<open>percent_no_rows\<close>), is not reached then. Numbers are reals here, not floats.
\<close>

theorem rates_in_range:
  assumes "clean_table df"
  shows "\<exists>s. create_summary_stats df = Inr s \<and>
           total_translations s = nrows df \<and>
           completed_translations s =
             (case get_col col_Completed df of
                Inl e \<Rightarrow> 0 | Inr c \<Rightarrow> real (length (filter (\<lambda>x. x = Bool True) c))) \<and>
           timed_out_translations s =
             (case get_col col_Timed_Out df of
                Inl e \<Rightarrow> 0 | Inr c \<Rightarrow> real (length (filter (\<lambda>x. x = Bool True) c))) \<and>
           completion_rate s =
             (if total_translations s = 0 then 0
              else completed_translations s / real (total_translations s) * 100) \<and>
           timeout_rate s =
             (if total_translations s = 0 then 0
              else timed_out_translations s / real (total_translations s) * 100) \<and>
           0 \<le> completion_rate s \<and> completion_rate s \<le> 100 \<and>
           0 \<le> timeout_rate s \<and> timeout_rate s \<le> 100"
proof -
  from assms obtain x y a where
    x: "x = (case get_col col_Completed df of
            Inl e \<Rightarrow> 0 | Inr c \<Rightarrow> real (length (filter (\<lambda>x. x = Bool True) c)))"
    and y: "y = (case get_col col_Timed_Out df of
            Inl e \<Rightarrow> 0 | Inr c \<Rightarrow> real (length (filter (\<lambda>x. x = Bool True) c)))"
    and bx: "0 \<le> x" "x \<le> real (nrows df)" and bs: "0 \<le> y" "y \<le> real (nrows df)"
    and s: "create_summary_stats df =
       Inr \<lparr>total_translations = nrows df, completed_translations = x,
            timed_out_translations = y,
            completion_rate = (if nrows df > 0 then x / real (nrows df) * 100 else 0),
            timeout_rate = (if nrows df > 0 then y / real (nrows df) * 100 else 0),
            avg_score = a\<rparr>"
    by (rule summary_stats_clean)
  let ?s = "\<lparr>total_translations = nrows df, completed_translations = x,
      timed_out_translations = y,
      completion_rate = (if nrows df > 0 then x / real (nrows df) * 100 else 0),
      timeout_rate = (if nrows df > 0 then y / real (nrows df) * 100 else 0),
      avg_score = a\<rparr>"
  have "0 \<le> completion_rate ?s \<and> completion_rate ?s \<le> 100"
    using rate_bounds [OF bx] by simp
  moreover have "0 \<le> timeout_rate ?s \<and> timeout_rate ?s \<le> 100"
    using rate_bounds [OF bs] by simp
  ultimately show ?thesis using s x y by (intro exI [of _ ?s]) simp
qed


lemma preprocess_clean_table:
  assumes "well_formed raw" and "preprocess_data L raw = Some df"
  shows "clean_table df"
proof -
  from assms(2) have steps: "preprocess_steps L raw = Inr df" by (simp add: preprocess_data_Some)
  have "shaped (nrows raw) df"
    using steps assms(1) by (auto simp: well_formed_def intro: preprocess_shaped)
  then have 1: "rect df" by (simp add: shaped_def)
  have 2: "list_all is_bool c" if "k = col_Completed \<or> k = col_Timed_Out" "get_col k df = Inr c" for k c
    using preprocess_flags [OF steps that(1)] that(2)
    by (cases "get_col k (cleaned raw)") (auto simp: flag_cell_eq is_bool_def list_all_iff)
  have 3: "list_all is_float c \<or> list_all is_bool c" if "get_col col_Score df = Inr c" for c
    using preprocess_score [OF steps] that
    by (cases "get_col col_Score (cleaned raw)") (auto dest: to_numeric_numeric)
  have 4: "\<exists>c. get_col col_Direction df = Inr c \<and> list_all is_str c"
    using preprocess_required [OF steps]
    by (auto simp: list_all_iff direction_of_def is_str_def)
  from 1 2 3 4 show ?thesis unfolding clean_table_def by blast
qed

lemma sample_clean_table: "clean_table sample_clean"
  using sample_well_formed sample_preprocessed by (rule preprocess_clean_table)

lemmas agg_defs = create_summary_stats_def percent_def rounded_percent_def truediv_def
  sum_if_present_def mean_if_present_def col_sum_def
  col_mean_def get_col_def columns_def Let_def

theorem rates_in_range_witness:
  "clean_table sample_clean \<and>
   create_summary_stats sample_clean =
     Inr \<lparr>total_translations = 3, completed_translations = 1, timed_out_translations = 1,
          completion_rate = 100 / 3, timeout_rate = 100 / 3, avg_score = Num 4.5\<rparr> \<and>
   (0::real) \<le> 100 / 3 \<and> (100::real) / 3 \<le> 100 \<and>
   clean_table (filter_rows [False, False, False] sample_clean) \<and>
   create_summary_stats (filter_rows [False, False, False] sample_clean) =
     Inr \<lparr>total_translations = 0, completed_translations = 0, timed_out_translations = 0,
          completion_rate = 0, timeout_rate = 0, avg_score = NaN\<rparr>"
proof -
  let ?empty = "filter_rows [False, False, False] sample_clean"
  have 1: "create_summary_stats sample_clean =
     Inr \<lparr>total_translations = 3, completed_translations = 1, timed_out_translations = 1,
          completion_rate = 100 / 3, timeout_rate = 100 / 3, avg_score = Num 4.5\<rparr>"
    by (simp add: sample_clean_def agg_defs)
  have e: "clean_table ?empty" using sample_clean_table by (rule clean_table_filter_rows)
  have 2: "create_summary_stats ?empty =
     Inr \<lparr>total_translations = 0, completed_translations = 0, timed_out_translations = 0,
          completion_rate = 0, timeout_rate = 0, avg_score = NaN\<rparr>"
    by (simp add: sample_clean_def filter_rows_def numeral_3_eq_3 agg_defs)
  from 1 2 e show ?thesis
    using rates_in_range [OF sample_clean_table] rates_in_range [OF e] sample_clean_table
    by simp
qed

section \<open>The average score\<close>

text \<open>
  For a table that reaches the aggregation, the average score is 0 when the table has no
  Translation Score column and the mean of the scores that are present when there is one.
\<close>

lemma avg_score_mean:
  assumes "create_summary_stats df = Inr s"
  shows "get_col col_Score df = Inl e \<Longrightarrow> avg_score s = Num 0"
    and "get_col col_Score df = Inr c \<Longrightarrow> list_all is_float c \<Longrightarrow>
         numbers = concat (map (\<lambda>x. case x of Num r \<Rightarrow> [r] | _ \<Rightarrow> []) c) \<Longrightarrow> numbers \<noteq> [] \<Longrightarrow>
         avg_score s = Num (sum_list numbers / real (length numbers))"
    and "get_col col_Score df = Inr c \<Longrightarrow> list_all is_float c \<Longrightarrow>
         concat (map (\<lambda>x. case x of Num r \<Rightarrow> [r] | _ \<Rightarrow> []) c) = [] \<Longrightarrow> avg_score s = NaN"
  using assms
  by (auto simp: create_summary_stats_def Let_def percent_def truediv_def mean_if_present_def col_mean_def
      numeric_values_float get_col_Inl_iff split: sum.splits if_splits dest: get_col_Inr_mem)

text \<open>
  Claim C1 has the average score equal to 0 also when the column exists and holds no value.
  \<^verbatim>\<open>Series.mean()\<close> of such a column is NaN, and \<open>create_summary_stats\<close> returns it as it is;
  \<open>create_direction_analysis\<close> tests \<^verbatim>\<open>pd.isna(avg_score)\<close> and reports 0 for the same table.
\<close>

theorem avg_score_nan_without_scores:
  "preprocess_data demo_lib sample_no_score = Some sample_no_score_clean \<and>
   map_sum id avg_score (create_summary_stats sample_no_score_clean) = Inr NaN \<and>
   map_sum id (map Avg_Score) (create_direction_analysis demo_lib sample_no_score_clean) = Inr [0]"
proof -
  have 1: "preprocess_data demo_lib sample_no_score = Some sample_no_score_clean"
    by (simp add: sample_no_score_def sample_no_score_clean_def demo_lib_def eval_defs lit_def)
  have 2: "map_sum id avg_score (create_summary_stats sample_no_score_clean) = Inr NaN"
    by (simp add: sample_no_score_clean_def agg_defs)
  have 3: "map_sum id (map Avg_Score) (create_direction_analysis demo_lib sample_no_score_clean) = Inr [0]"
    by (simp add: sample_no_score_clean_def create_direction_analysis_def group_keys_def
        strings_of_def group_of_def filter_rows_def direction_entry_def is_str_def isna_def
        agg_defs)
  from 1 2 3 show ?thesis by simp
qed

section \<open>The direction breakdown\<close>

lemma collect_map:
  assumes "\<And>x. x \<in> set xs \<Longrightarrow> \<exists>y. g x = Inr y \<and> f y = t x"
  shows "\<exists>ys. collect (map g xs) = Inr ys \<and> map f ys = map t xs"
  using assms
proof (induction xs)
  case Nil
  then show ?case by simp
next
  case (Cons x xs)
  then obtain y where y: "g x = Inr y" "f y = t x" by auto
  from Cons obtain ys where "collect (map g xs) = Inr ys" "map f ys = map t xs" by auto
  with y show ?case by simp
qed

lemma direction_entry_total:
  assumes "clean_table grp"
  shows "\<exists>e. direction_entry L k grp = Inr e \<and> Total e = nrows grp"
proof -
  from assms have r: "rect grp" by (simp add: clean_table_def)
  obtain x where x: "sum_if_present col_Completed grp = Inr x"
    using sum_if_present_flags [OF r, of col_Completed] assms by (auto simp: clean_table_def)
  obtain y where y: "sum_if_present col_Timed_Out grp = Inr y"
    using sum_if_present_flags [OF r, of col_Timed_Out] assms by (auto simp: clean_table_def)
  obtain a where a: "mean_if_present col_Score grp = Inr a"
    using mean_if_present_total [of col_Score grp] assms by (auto simp: clean_table_def)
  show ?thesis
    by (simp add: direction_entry_def Let_def rounded_percent_def percent_def truediv_def x y a)
qed

lemma nrows_group_of:
  assumes "length col = nrows df"
  shows "nrows (group_of df col k) = length (filter (\<lambda>c. c = Str k) col)"
proof -
  have "nrows (group_of df col k) =
      length (select (map (\<lambda>c. c = Str k) col) (replicate (nrows df) ()))"
    by (simp add: group_of_def nrows_filter_rows)
  also have "\<dots> = length (select (map (\<lambda>c. c = Str k) col) col)"
    by (rule length_select) (simp add: assms)
  finally show ?thesis by (simp add: select_pred)
qed

lemma strings_of_str: "list_all is_str col \<Longrightarrow> map Str (strings_of col) = col"
proof (induction col)
  case Nil
  then show ?case by (simp add: strings_of_def)
next
  case (Cons c col)
  then show ?case by (cases c) (auto simp: strings_of_def is_str_def)
qed

lemma count_keys:
  "sum_list (map (\<lambda>k. length (filter (\<lambda>s. s = k) ss)) (sort (remdups ss))) = length ss"
proof -
  have "sum_list (map (\<lambda>k. length (filter (\<lambda>s. s = k) ss)) (sort (remdups ss))) =
      sum (\<lambda>k. length (filter (\<lambda>s. s = k) ss)) (set (sort (remdups ss)))"
    by (rule sum_list_distinct_conv_sum_set) simp
  also have "\<dots> = sum (count_list ss) (set ss)"
    by (simp add: count_list_eq_length_filter eq_commute)
  also have "\<dots> = length ss" by (rule sum_count_set) simp_all
  finally show ?thesis .
qed

lemma group_sizes:
  assumes "list_all is_str col"
  shows "sum_list (map (\<lambda>k. length (filter (\<lambda>c. c = Str k) col)) (sort (remdups (strings_of col)))) =
         length col"
proof -
  let ?ss = "strings_of col"
  have col: "col = map Str ?ss" using assms by (simp add: strings_of_str)
  have "length (filter (\<lambda>c. c = Str k) col) = length (filter (\<lambda>s. s = k) ?ss)" for k
    by (subst col) (simp add: filter_map comp_def)
  then have "sum_list (map (\<lambda>k. length (filter (\<lambda>c. c = Str k) col)) (sort (remdups ?ss))) =
      sum_list (map (\<lambda>k. length (filter (\<lambda>s. s = k) ?ss)) (sort (remdups ?ss)))"
    by simp
  also have "\<dots> = length ?ss" by (rule count_keys)
  also have "\<dots> = length col" by (subst (2) col) simp
  finally show ?thesis .
qed

lemma totals_sum_clean:
  assumes "clean_table df"
  shows "\<exists>ds s. create_direction_analysis L df = Inr ds \<and> create_summary_stats df = Inr s \<and>
           sum_list (map Total ds) = total_translations s"
proof -
  from assms obtain col where col: "get_col col_Direction df = Inr col" "list_all is_str col"
    by (auto simp: clean_table_def)
  from assms have "rect df" by (simp add: clean_table_def)
  then have len: "length col = nrows df" using col(1) by (rule rect_get_col)
  have keys: "group_keys col = Inr (sort (remdups (strings_of col)))"
    using col(2) by (auto simp: group_keys_def list_all_iff)
  let ?ks = "sort (remdups (strings_of col))"
  have "\<exists>y. direction_entry L k (group_of df col k) = Inr y \<and>
      Total y = length (filter (\<lambda>c. c = Str k) col)" for k
  proof -
    have "clean_table (group_of df col k)"
      using assms by (simp add: group_of_def clean_table_filter_rows)
    from direction_entry_total [OF this, of L k] show ?thesis
      by (simp add: nrows_group_of [OF len])
  qed
  then obtain ds where ds: "collect (map (\<lambda>k. direction_entry L k (group_of df col k)) ?ks) = Inr ds"
    "map Total ds = map (\<lambda>k. length (filter (\<lambda>c. c = Str k) col)) ?ks"
    using collect_map [of ?ks "\<lambda>k. direction_entry L k (group_of df col k)" Total
        "\<lambda>k. length (filter (\<lambda>c. c = Str k) col)"]
    by blast
  have 1: "create_direction_analysis L df = Inr ds"
    by (simp add: create_direction_analysis_def col(1) keys ds(1))
  have 2: "sum_list (map Total ds) = nrows df"
    by (simp add: ds(2) group_sizes [OF col(2)] len)
  from assms obtain s where
    "create_summary_stats df = Inr s" "total_translations s = nrows df"
    by (rule summary_stats_clean) simp
  with 1 2 show ?thesis by auto
qed

text \<open>
  Claim C7: for every preprocessed table, and for every row filter of it, the direction
  breakdown and the summary statistics are both computed, and the Total fields of the groups
  add up to \<open>total_translations\<close>.
\<close>

theorem direction_totals_sum:
  assumes "well_formed raw" and "preprocess_data L raw = Some df"
    and "df' = df \<or> df' = filter_rows m df"
  shows "\<exists>ds s. create_direction_analysis L df' = Inr ds \<and> create_summary_stats df' = Inr s \<and>
           sum_list (map Total ds) = total_translations s"
proof -
  have "clean_table df" using assms(1,2) by (rule preprocess_clean_table)
  with assms(3) have "clean_table df'" by (auto intro: clean_table_filter_rows)
  then show ?thesis by (rule totals_sum_clean)
qed


lemma sample_keys:
  "sort (remdups [lit ''EN'' @ arrow @ lit ''FR'', lit ''EN'' @ arrow @ lit ''FR'',
      str_Unknown @ arrow @ lit ''DE'']) =
   [lit ''EN'' @ arrow @ lit ''FR'', str_Unknown @ arrow @ lit ''DE'']"
  by (simp add: lit_def str_Unknown_def arrow_def)

theorem direction_totals_sum_witness:
  "well_formed sample_raw \<and> preprocess_data demo_lib sample_raw = Some sample_clean \<and>
   map_sum id (map (\<lambda>d. (Direction d, Total d))) (create_direction_analysis demo_lib sample_clean) =
     Inr [(lit ''EN'' @ arrow @ lit ''FR'', 2), (str_Unknown @ arrow @ lit ''DE'', 1)] \<and>
   map_sum id total_translations (create_summary_stats sample_clean) = Inr 3"
proof -
  have ne: "lit ''EN'' @ arrow @ lit ''FR'' \<noteq> str_Unknown @ arrow @ lit ''DE''"
    by (simp add: lit_def str_Unknown_def)
  have 1: "map_sum id (map (\<lambda>d. (Direction d, Total d)))
      (create_direction_analysis demo_lib sample_clean) =
     Inr [(lit ''EN'' @ arrow @ lit ''FR'', 2), (str_Unknown @ arrow @ lit ''DE'', 1)]"
    using ne ne [symmetric]
    by (simp add: sample_clean_def create_direction_analysis_def group_keys_def
        strings_of_def group_of_def filter_rows_def direction_entry_def is_str_def isna_def
        agg_defs sample_keys numeral_3_eq_3 del: remdups.simps sort_key_simps)
  have 2: "map_sum id total_translations (create_summary_stats sample_clean) = Inr 3"
    by (simp add: sample_clean_def agg_defs)
  obtain ds s where "create_direction_analysis demo_lib sample_clean = Inr ds"
    "create_summary_stats sample_clean = Inr s" "sum_list (map Total ds) = total_translations s"
    using direction_totals_sum [OF sample_well_formed sample_preprocessed, of sample_clean] by blast
  with 1 2 sample_well_formed sample_preprocessed show ?thesis by simp
qed

section \<open>The date filter\<close>

lemma select_nth: "select m xs = map ((!) xs) (select m [0..<length xs])"
proof (induction xs arbitrary: m)
  case Nil
  then show ?case by simp
next
  case (Cons x xs)
  show ?case
  proof (cases m)
    case Nil
    then show ?thesis by simp
  next
    case (Cons b m')
    have "[0..<length (x # xs)] = 0 # map Suc [0..<length xs]"
      by (simp add: upt_conv_Cons map_Suc_upt del: upt_Suc)
    moreover have "map ((!) (x # xs)) (map Suc ys) = map ((!) xs) ys" for ys by simp
    ultimately show ?thesis
      using Cons.IH [of m'] Cons by (simp add: select_map del: upt_Suc)
  qed
qed

lemma map_of_row_at:
  "map_of (row_at df i) k = (case get_col k df of Inl e \<Rightarrow> None | Inr c \<Rightarrow> Some (c ! i))"
proof -
  have "map_of (map (\<lambda>(n, c). (n, c ! i)) al) k = map_option (\<lambda>c. c ! i) (map_of al k)" for al
    by (induction al) auto
  from this [of "cols df"] show ?thesis
    by (cases "map_of (cols df) k") (simp_all add: row_at_def get_col_def)
qed

lemma rows_of_filter_rows:
  assumes "rect df"
  shows "rows_of (filter_rows m df) = select m (rows_of df)"
proof -
  let ?n = "nrows df"
  let ?idx = "select m [0..<?n]"
  have n': "nrows (filter_rows m df) = length ?idx"
    unfolding nrows_filter_rows by (rule length_select) simp
  have row: "row_at (filter_rows m df) j = row_at df (?idx ! j)" if "j < length ?idx" for j
  proof -
    have "select m c ! j = c ! (?idx ! j)" if "(n, c) \<in> set (cols df)" for n c
    proof -
      from assms that have "length c = ?n" by (auto simp: rect_def list_all_iff)
      then have "select m c = map ((!) c) ?idx" using select_nth [of m c] by simp
      with \<open>j < length ?idx\<close> show ?thesis by simp
    qed
    then show ?thesis by (auto simp: row_at_def filter_rows_def)
  qed
  have "rows_of (filter_rows m df) = map (\<lambda>j. row_at df (?idx ! j)) [0..<length ?idx]"
    by (simp add: rows_of_def n' row)
  also have "\<dots> = map (row_at df) (map ((!) ?idx) [0..<length ?idx])" by simp
  also have "\<dots> = map (row_at df) ?idx" by (simp only: map_nth)
  also have "\<dots> = select m (rows_of df)" by (simp add: rows_of_def select_map)
  finally show ?thesis .
qed

lemma column_of_rows:
  assumes "rect df" and "get_col k df = Inr c"
  shows "map (\<lambda>r. map_of r k) (rows_of df) = map Some c"
proof -
  have "length c = nrows df" using assms by (rule rect_get_col)
  then have "map (\<lambda>i. Some (c ! i)) [0..<nrows df] = map Some (map ((!) c) [0..<length c])"
    by simp
  also have "\<dots> = map Some c" by (simp only: map_nth)
  finally have "map (\<lambda>i. Some (c ! i)) [0..<nrows df] = map Some c" .
  then show ?thesis by (simp add: rows_of_def map_of_row_at assms(2) comp_def)
qed

lemma filter_rows_by_column:
  assumes "rect df" and "get_col k df = Inr c"
  shows "rows_of (filter_rows (map p c) df) =
         filter (\<lambda>r. case map_of r k of None \<Rightarrow> False | Some x \<Rightarrow> p x) (rows_of df)"
proof -
  let ?q = "\<lambda>r. case map_of r k of None \<Rightarrow> False | Some x \<Rightarrow> p x"
  have "map p c = map (\<lambda>v. case v of None \<Rightarrow> False | Some x \<Rightarrow> p x) (map Some c)" by simp
  also have "\<dots> = map ?q (rows_of df)"
    by (simp add: column_of_rows [OF assms, symmetric] comp_def)
  finally have "map p c = map ?q (rows_of df)" .
  then show ?thesis by (simp add: rows_of_filter_rows [OF assms(1)] select_pred)
qed

text \<open>
  Claim C8: when the date filter is active (the preprocessed table has a Timestamp column
  that is not missing throughout, and the widget returns a lower and an upper bound), the
  filtered table has the same columns and exactly the rows, in order, whose Date \<open>d\<close> satisfies
  \<open>lo \<le> d\<close> and \<open>d \<le> hi\<close>; a row with an absent Date is left out.
\<close>

theorem date_range_filter:
  assumes "well_formed raw" and "preprocess_data L raw = Some df"
    and "get_col col_Timestamp df = Inr ts" and "\<not> list_all isna ts"
  shows "\<exists>df'. date_filter df [lo, hi] = Inr df' \<and> columns df' = columns df \<and>
           rows_of df' =
             filter (\<lambda>r. case map_of r col_Date of
                            Some (DateC d) \<Rightarrow> lo \<le> d \<and> d \<le> hi
                          | _ \<Rightarrow> False) (rows_of df)"
proof -
  from assms(2) have steps: "preprocess_steps L raw = Inr df" by (simp add: preprocess_data_Some)
  have "shaped (nrows raw) df"
    using steps assms(1) by (auto simp: well_formed_def intro: preprocess_shaped)
  then have r: "rect df" by (simp add: shaped_def)
  have dt: "list_all is_datetime ts" and dates: "get_col col_Date df = Inr (map date_cell ts)"
    using preprocess_timestamp [OF steps] assms(3)
    by (cases "get_col col_Timestamp (cleaned raw)"; auto)+
  let ?p = "\<lambda>d. date_ge d lo \<and> date_le d hi"
  let ?df' = "filter_rows (map ?p (map date_cell ts)) df"
  have 1: "date_filter df [lo, hi] = Inr ?df'"
    using assms(3,4) dt by (simp add: date_filter_def get_col_Inr_mem)
  have p: "(case v of None \<Rightarrow> False | Some x \<Rightarrow> ?p x) =
      (case v of Some (DateC d) \<Rightarrow> lo \<le> d \<and> d \<le> hi | _ \<Rightarrow> False)" for v
    by (auto simp: date_ge_def date_le_def split: option.splits cell.splits)
  have 2: "rows_of ?df' =
      filter (\<lambda>r. case map_of r col_Date of Some (DateC d) \<Rightarrow> lo \<le> d \<and> d \<le> hi | _ \<Rightarrow> False)
        (rows_of df)"
    using filter_rows_by_column [OF r dates, of ?p] by (simp only: p)
  from 1 2 show ?thesis by simp
qed


theorem date_range_filter_witness:
  "well_formed sample_raw \<and> preprocess_data demo_lib sample_raw = Some sample_clean \<and>
   get_col col_Timestamp sample_clean =
     Inr [Ts 1724063400000000000, NaT, Ts 1724281500000000000] \<and>
   \<not> list_all isna [Ts 1724063400000000000, NaT, Ts 1724281500000000000] \<and>
   get_col col_Date sample_clean = Inr [DateC 19954, NaT, DateC 19956] \<and>
   map_sum id rows_of (date_filter sample_clean [19954, 19955]) = Inr [row_at sample_clean 0]"
proof -
  have ts: "get_col col_Timestamp sample_clean =
      Inr [Ts 1724063400000000000, NaT, Ts 1724281500000000000]"
    and dates: "get_col col_Date sample_clean = Inr [DateC 19954, NaT, DateC 19956]"
    by (simp_all add: sample_clean_def get_col_def)
  have nn: "\<not> list_all isna [Ts 1724063400000000000, NaT, Ts 1724281500000000000]"
    by (simp add: isna_def)
  have u: "[0..<nrows sample_clean] = [0, 1, 2]"
    by (simp add: sample_clean_def upt_rec)
  have "filter (\<lambda>r. case map_of r col_Date of
                      Some (DateC d) \<Rightarrow> 19954 \<le> d \<and> d \<le> 19955
                    | _ \<Rightarrow> False) (rows_of sample_clean) = [row_at sample_clean 0]"
    by (simp add: rows_of_def u map_of_row_at dates)
  with date_range_filter [OF sample_well_formed sample_preprocessed ts nn, of 19954 19955]
  have "map_sum id rows_of (date_filter sample_clean [19954, 19955]) = Inr [row_at sample_clean 0]"
    by auto
  with ts dates nn sample_well_formed sample_preprocessed show ?thesis by simp
qed

section \<open>Preprocessing a preprocessed table\<close>

lemma fill_unknown_noop:
  assumes "get_col k d = Inr c" and "\<not> list_ex isna c"
  shows "fill_unknown k d = Inr d"
proof -
  have "map fill_cell c = c"
    using assms(2) by (simp add: list_ex_iff map_idI fill_cell_id)
  with assms(1) show ?thesis by (simp add: fill_unknown_def set_col_same)
qed

lemma flag_cell_bool: "is_bool c \<Longrightarrow> flag_cell c = Bool False"
  by (cases c) (simp_all add: is_bool_def flag_cell_eq)

lemma parse_timestamp_noop:
  assumes "\<And>ts. get_col col_Timestamp d = Inr ts \<Longrightarrow>
      list_all is_datetime ts \<and> get_col col_Hour d = Inr (map hour_cell ts) \<and>
      get_col col_Date d = Inr (map date_cell ts)"
  shows "parse_timestamp L d = Inr d"
proof (cases "get_col col_Timestamp d")
  case (Inl e)
  then show ?thesis by (simp add: parse_timestamp_def get_col_Inl_iff)
next
  case (Inr ts)
  from assms [OF Inr] have dt: "list_all is_datetime ts"
    and h: "get_col col_Hour d = Inr (map hour_cell ts)"
    and dd: "get_col col_Date d = Inr (map date_cell ts)" by simp_all
  have "to_datetime L ts = Inr ts" using dt by (simp add: to_datetime_def)
  then show ?thesis
    using Inr dt h dd
    by (simp add: parse_timestamp_def assign_timestamp_def assign_hour_def assign_date_def
        set_col_same get_col_Inr_mem)
qed

lemma clean_scores_noop:
  assumes "\<And>c. get_col col_Score d = Inr c \<Longrightarrow> list_all is_float c \<or> list_all is_bool c"
  shows "clean_scores L d = Inr d"
proof (cases "get_col col_Score d")
  case (Inl e)
  then show ?thesis by (simp add: clean_scores_def get_col_Inl_iff)
next
  case (Inr c)
  from assms [OF Inr] have "to_numeric L c = Inr c" by (auto simp: to_numeric_def)
  with Inr show ?thesis by (simp add: clean_scores_def set_col_same get_col_Inr_mem)
qed

lemma create_direction_noop:
  assumes "get_col col_From d = Inr f" and "get_col col_To d = Inr t"
    and "get_col col_Direction d = Inr (map2 (direction_of L) f t)"
  shows "create_direction L d = Inr d"
  using assms by (simp add: create_direction_def set_col_same)

lemma cleaned_noop:
  assumes "\<And>n. n \<in> set (columns d) \<Longrightarrow> clean_name n = n"
  shows "cleaned d = d"
proof -
  have "map (\<lambda>(n, c). (clean_name n, c)) (cols d) = cols d"
  proof (rule map_idI)
    fix x assume "x \<in> set (cols d)"
    then have "fst x \<in> set (columns d)" by (simp add: columns_def)
    then have "clean_name (fst x) = fst x" by (rule assms)
    then show "(case x of (n, c) \<Rightarrow> (clean_name n, c)) = x" by (cases x) simp
  qed
  then show ?thesis by (simp add: cleaned_cols)
qed

lemma preprocess_columns:
  assumes "preprocess_steps L df = Inr df1" and "k \<in> set (columns df1)"
  shows "k \<in> set (columns (cleaned df)) \<or> k = col_Hour \<or> k = col_Date \<or> k = col_Direction"
proof -
  from assms(2) obtain c where c: "get_col k df1 = Inr c" by (auto dest: mem_get_col)
  consider "k = col_From \<or> k = col_To \<or> k = col_Status" | "k = col_Completed \<or> k = col_Timed_Out"
    | "k = col_Timestamp" | "k = col_Score" | "k = col_Hour \<or> k = col_Date \<or> k = col_Direction"
    | "k \<notin> {col_From, col_To, col_Status, col_Completed, col_Timed_Out, col_Timestamp,
               col_Hour, col_Date, col_Score, col_Direction}"
    by blast
  then show ?thesis
  proof cases
    case 1
    with preprocess_required [OF assms(1)] show ?thesis by (auto dest: get_col_Inr_mem)
  next
    case 2
    from preprocess_flags [OF assms(1) 2] c show ?thesis
      by (cases "get_col k (cleaned df)") (auto dest: get_col_Inr_mem)
  next
    case 3
    with preprocess_timestamp [OF assms(1)] c show ?thesis
      by (cases "get_col col_Timestamp (cleaned df)") (auto dest: get_col_Inr_mem)
  next
    case 4
    with preprocess_score [OF assms(1)] c show ?thesis
      by (cases "get_col col_Score (cleaned df)") (auto dest: get_col_Inr_mem)
  next
    case 5
    then show ?thesis by simp
  next
    case 6
    from preprocess_other_columns [OF assms(1) 6] c
    have "get_col k (cleaned df) = Inr c" by simp
    then show ?thesis by (auto dest: get_col_Inr_mem)
  qed
qed


text \<open>
  A second cleaning can change a cleaned name: \<^verbatim>\<open>'X ,'\<close> becomes \<^verbatim>\<open>'X '\<close>, which a second
  cleaning strips to \<^verbatim>\<open>'X'\<close>.
\<close>

lemma clean_name_not_idempotent:
  "clean_name (lit ''X ,'') = lit ''X '' \<and> clean_name (clean_name (lit ''X ,'')) = lit ''X''"
  by (simp add: clean_defs lit_def)

text \<open>
  Claim C2 has a second preprocessing leave the table as it is. The second
  \<^verbatim>\<open>map({'Yes': True, 'No': False})\<close> finds booleans, which are no keys of the dictionary: every
  flag becomes false.
\<close>

theorem second_preprocess_clears_flags:
  "preprocess_data demo_lib sample_raw = Some sample_clean \<and>
   preprocess_data demo_lib sample_clean = Some sample_twice \<and>
   sample_twice \<noteq> sample_clean \<and>
   get_col col_Completed sample_clean = Inr [Bool True, Bool False, Bool False] \<and>
   get_col col_Completed sample_twice = Inr [Bool False, Bool False, Bool False]"
proof -
  have 1: "preprocess_data demo_lib sample_clean = Some sample_twice"
    by (simp add: sample_clean_def sample_twice_def eval_defs)
  have 2: "get_col col_Completed sample_clean = Inr [Bool True, Bool False, Bool False]"
    "get_col col_Completed sample_twice = Inr [Bool False, Bool False, Bool False]"
    by (simp_all add: sample_clean_def sample_twice_def get_col_def)
  then have "sample_twice \<noteq> sample_clean" by auto
  with 1 2 sample_preprocessed show ?thesis by simp
qed

text \<open>
  Claim C2, amended: for every well-formed raw table on which preprocessing succeeds and
  whose cleaned column names are left alone by a second cleaning, a second preprocessing
  succeeds and returns the same table except that every value of the Completed and Timed Out
  columns is false: the columns, the number of rows and every other column (From, To, Status,
  timestamp, hour, date, score and direction among them) are unchanged. It returns the same
  table when no flag is true.
\<close>

theorem second_preprocess:
  assumes "well_formed df" and "preprocess_data L df = Some df1"
    and "\<forall>n \<in> set (columns df). clean_name (clean_name n) = clean_name n"
  shows "\<exists>df2. preprocess_data L df1 = Some df2 \<and> columns df2 = columns df1 \<and>
           nrows df2 = nrows df1 \<and>
           (\<forall>k. get_col k df2 =
              (if k = col_Completed \<or> k = col_Timed_Out
               then map_sum id (map (\<lambda>c. Bool False)) (get_col k df1)
               else get_col k df1)) \<and>
           ((\<forall>k c. (k = col_Completed \<or> k = col_Timed_Out) \<and> get_col k df1 = Inr c \<longrightarrow>
                Bool True \<notin> set c) \<longrightarrow> df2 = df1)"
proof -
  from assms(2) have steps: "preprocess_steps L df = Inr df1" by (simp add: preprocess_data_Some)
  have ct: "clean_table df1" using assms(1,2) by (rule preprocess_clean_table)
  \<comment> \<open>the names are clean already\<close>
  have "clean_name n = n" if "n \<in> set (columns df1)" for n
    using preprocess_columns [OF steps that] assms(3) by (auto simp: columns_cleaned)
  then have s0: "cleaned df1 = df1" by (rule cleaned_noop)
  \<comment> \<open>nothing is left to fill\<close>
  from preprocess_required [OF steps] obtain f t s where
    f: "get_col col_From df1 = Inr (map fill_cell f)" and
    t: "get_col col_To df1 = Inr (map fill_cell t)" and
    s: "get_col col_Status df1 = Inr (map fill_cell s)" and
    d: "get_col col_Direction df1 = Inr (map2 (direction_of L) (map fill_cell f) (map fill_cell t))"
    by blast
  have s1: "fill_unknown col_From df1 = Inr df1" using f by (rule fill_unknown_noop) (simp add: list_ex_iff)
  have s2: "fill_unknown col_To df1 = Inr df1" using t by (rule fill_unknown_noop) (simp add: list_ex_iff)
  have s3: "fill_unknown col_Status df1 = Inr df1" using s by (rule fill_unknown_noop) (simp add: list_ex_iff)
  \<comment> \<open>the flags\<close>
  obtain e4 where s4: "convert_flag col_Completed df1 = Inr e4" using convert_flag_total by blast
  obtain e5 where s5: "convert_flag col_Timed_Out e4 = Inr e5" using convert_flag_total by blast
  have flags: "map flag_cell c = map (\<lambda>c. Bool False) c"
    if "k = col_Completed \<or> k = col_Timed_Out" "get_col k df1 = Inr c" for k c
  proof -
    from ct that have "list_all is_bool c" by (auto simp: clean_table_def)
    then show ?thesis by (auto simp: list_all_iff flag_cell_bool)
  qed
  have g5: "get_col k e5 =
      (if k = col_Completed \<or> k = col_Timed_Out
       then map_sum id (map (\<lambda>c. Bool False)) (get_col k df1) else get_col k df1)" for k
  proof (cases "k = col_Completed \<or> k = col_Timed_Out")
    case False
    then show ?thesis by (simp add: convert_flag_get [OF s5] convert_flag_get [OF s4])
  next
    case True
    then have "get_col k e5 = map_sum id (map flag_cell) (get_col k df1)"
      by (auto simp: convert_flag_get [OF s5] convert_flag_get [OF s4])
    with True flags [OF True] show ?thesis by (cases "get_col k df1") auto
  qed
  have other: "get_col k e5 = get_col k df1" if "k \<noteq> col_Completed" "k \<noteq> col_Timed_Out" for k
    using that by (simp add: g5)
  \<comment> \<open>timestamps, scores and directions are what they would be set to\<close>
  have s6: "parse_timestamp L e5 = Inr e5"
  proof (rule parse_timestamp_noop)
    fix ts assume "get_col col_Timestamp e5 = Inr ts"
    then have ts: "get_col col_Timestamp df1 = Inr ts" by (simp add: other)
    with preprocess_timestamp [OF steps]
    show "list_all is_datetime ts \<and> get_col col_Hour e5 = Inr (map hour_cell ts) \<and>
        get_col col_Date e5 = Inr (map date_cell ts)"
      by (cases "get_col col_Timestamp (cleaned df)") (auto simp: other)
  qed
  have s7: "clean_scores L e5 = Inr e5"
    using ct by (intro clean_scores_noop) (auto simp: other clean_table_def)
  have s8: "create_direction L e5 = Inr e5"
    using f t d by (intro create_direction_noop) (simp_all add: other)
  have run: "preprocess_data L df1 = Some e5"
    by (simp add: preprocess_data_def preprocess_steps_def field_steps_def clean_columns_def
        s0 s1 s2 s3 s4 s5 s6 s7 s8)
  \<comment> \<open>shape\<close>
  have e4: "e4 = (case get_col col_Completed df1 of
      Inl e \<Rightarrow> df1 | Inr c \<Rightarrow> set_col col_Completed (map flag_cell c) df1)"
    using s4 by (auto simp: convert_flag_def get_col_Inl_iff split: sum.splits if_splits
        dest: get_col_Inr_mem)
  have e5: "e5 = (case get_col col_Timed_Out e4 of
      Inl e \<Rightarrow> e4 | Inr c \<Rightarrow> set_col col_Timed_Out (map flag_cell c) e4)"
    using s5 by (auto simp: convert_flag_def get_col_Inl_iff split: sum.splits if_splits
        dest: get_col_Inr_mem)
  have c4: "columns e4 = columns df1" "nrows e4 = nrows df1"
    by (auto simp: e4 columns_set_col split: sum.splits dest: get_col_Inr_mem)
  have c5: "columns e5 = columns df1" "nrows e5 = nrows df1"
    by (auto simp: e5 c4 columns_set_col split: sum.splits dest: get_col_Inr_mem)
  have same: "e5 = df1"
    if nt: "\<forall>k c. (k = col_Completed \<or> k = col_Timed_Out) \<and> get_col k df1 = Inr c \<longrightarrow>
        Bool True \<notin> set c"
  proof -
    have keep: "map flag_cell c = c"
      if "k = col_Completed \<or> k = col_Timed_Out" "get_col k df1 = Inr c" for k c
    proof -
      from ct that have "list_all is_bool c" by (auto simp: clean_table_def)
      moreover from nt that have "Bool True \<notin> set c" by blast
      ultimately have "x = Bool False" if "x \<in> set c" for x
        using that by (cases x) (auto simp: list_all_iff is_bool_def)
      then show ?thesis by (intro map_idI) (auto simp: flag_cell_eq)
    qed
    have "e4 = df1"
    proof (cases "get_col col_Completed df1")
      case (Inl e)
      then show ?thesis by (simp add: e4)
    next
      case (Inr c)
      then have "map flag_cell c = c" using keep [of col_Completed c] by simp
      with Inr show ?thesis by (simp add: e4 set_col_same)
    qed
    moreover have "e5 = e4"
    proof (cases "get_col col_Timed_Out e4")
      case (Inl e)
      then show ?thesis by (simp add: e5)
    next
      case (Inr c)
      then have "map flag_cell c = c" using keep [of col_Timed_Out c] \<open>e4 = df1\<close> by simp
      with Inr show ?thesis by (simp add: e5 set_col_same)
    qed
    ultimately show "e5 = df1" by simp
  qed
  from run c5 g5 same show ?thesis by blast
qed


theorem second_preprocess_witness:
  "well_formed sample_raw \<and> preprocess_data demo_lib sample_raw = Some sample_clean \<and>
   list_all (\<lambda>n. clean_name (clean_name n) = clean_name n) (columns sample_raw) \<and>
   preprocess_data demo_lib sample_clean = Some sample_twice \<and>
   columns sample_twice = columns sample_clean \<and>
   get_col col_Completed sample_twice = Inr [Bool False, Bool False, Bool False] \<and>
   get_col col_Timed_Out sample_twice = Inr [Bool False, Bool False, Bool False] \<and>
   get_col col_Score sample_twice = get_col col_Score sample_clean \<and>
   well_formed sample_all_no \<and>
   preprocess_data demo_lib sample_all_no = Some sample_all_no_clean \<and>
   list_all (\<lambda>n. clean_name (clean_name n) = clean_name n) (columns sample_all_no) \<and>
   get_col col_Completed sample_all_no_clean = Inr [Bool False, Bool False] \<and>
   get_col col_Timed_Out sample_all_no_clean = Inl KeyError \<and>
   preprocess_data demo_lib sample_all_no_clean = Some sample_all_no_clean"
proof -
  have a1: "list_all (\<lambda>n. clean_name (clean_name n) = clean_name n) (columns sample_raw)"
    by (simp add: sample_raw_def columns_def)
  have a2: "preprocess_data demo_lib sample_clean = Some sample_twice"
    by (simp add: sample_clean_def sample_twice_def eval_defs)
  have a3: "get_col col_Completed sample_clean = Inr [Bool True, Bool False, Bool False]"
    "get_col col_Timed_Out sample_clean = Inr [Bool False, Bool True, Bool False]"
    by (simp_all add: sample_clean_def get_col_def)
  have b0: "well_formed sample_all_no"
    by (simp add: well_formed_def sample_all_no_def columns_def rect_def)
  have b1: "list_all (\<lambda>n. clean_name (clean_name n) = clean_name n) (columns sample_all_no)"
    by (simp add: sample_all_no_def columns_def)
  have b2: "preprocess_data demo_lib sample_all_no = Some sample_all_no_clean"
    by (simp add: sample_all_no_def sample_all_no_clean_def eval_defs str_Yes_def str_No_def lit_def)
  have b3: "get_col col_Completed sample_all_no_clean = Inr [Bool False, Bool False]"
    "get_col col_Timed_Out sample_all_no_clean = Inl KeyError"
    by (simp_all add: sample_all_no_clean_def get_col_def)
  have b4: "\<forall>k c. (k = col_Completed \<or> k = col_Timed_Out) \<and> get_col k sample_all_no_clean = Inr c \<longrightarrow>
      Bool True \<notin> set c"
    using b3 by auto
  from second_preprocess [OF sample_well_formed sample_preprocessed a1 [unfolded list_all_iff]] a2 a3
  have 1: "columns sample_twice = columns sample_clean \<and>
      get_col col_Completed sample_twice = Inr [Bool False, Bool False, Bool False] \<and>
      get_col col_Timed_Out sample_twice = Inr [Bool False, Bool False, Bool False] \<and>
      get_col col_Score sample_twice = get_col col_Score sample_clean"
    by auto
  from second_preprocess [OF b0 b2 b1 [unfolded list_all_iff]] b4
  have 2: "preprocess_data demo_lib sample_all_no_clean = Some sample_all_no_clean"
    by auto
  from 1 2 a1 a2 b0 b1 b2 b3 sample_well_formed sample_preprocessed show ?thesis by simp
qed

end
